theory Spec2Isabelle
  imports Complex_Main
begin

section \<open>JavaScript values used by the material\<close>

text \<open>
  A JavaScript Number is a binary64 floating-point number: a finite value, given here as
  the real number it denotes, or one of the three values that are not finite. Every
  arithmetic operation returns the exact result rounded to the nearest binary64 number,
  ties to the even significand. The negative zero is not modelled: a zero is the real
  number zero, and a division by it takes the sign of the dividend.
\<close>

datatype number = Finite real | NaN | PosInfinity | NegInfinity

datatype js_value =
    JSNull
  | JSUndefined
  | JSBoolean bool
  | JSNumber number
  | JSString string
  | JSObject nat

subsection \<open>Rounding to binary64\<close>

text \<open>The nearest integer, the even one of two.\<close>

definition round_even :: "real \<Rightarrow> int" where
  "round_even x =
     (let f = \<lfloor>x\<rfloor>
      in if x - of_int f < 1 / 2 then f
         else if 1 / 2 < x - of_int f then f + 1
         else if even f then f else f + 1)"

text \<open>
  The exponent \<open>e\<close> of the unit in the last place of a magnitude \<open>a < 2 ^ 1024\<close>: the
  largest \<open>e \<le> 971\<close> with \<open>2 ^ 52 * 2 ^ e \<le> a\<close>, and \<open>- 1074\<close> (the subnormal
  numbers) when there is none above it. The search goes down from 971.
\<close>

fun ulp_search :: "nat \<Rightarrow> real \<Rightarrow> int \<Rightarrow> int" where
  "ulp_search 0 a e = e"
| "ulp_search (Suc k) a e = (if a < 2 ^ 52 * 2 powi e then ulp_search k a (e - 1) else e)"

definition ulp_exponent :: "real \<Rightarrow> int" where
  "ulp_exponent a = ulp_search 2045 a 971"

text \<open>
  The binary64 number nearest to a real: a multiple of the unit in the last place with a
  significand of at most 53 bits. From the midpoint between the largest finite number
  and \<open>2 ^ 1024\<close> on, the result is infinite.
\<close>

definition round64 :: "real \<Rightarrow> number" where
  "round64 x =
     (if 2 ^ 1024 - 2 ^ 970 \<le> \<bar>x\<bar> then (if 0 < x then PosInfinity else NegInfinity)
      else (let e = ulp_exponent \<bar>x\<bar>
            in Finite (of_int (round_even (x / 2 powi e)) * 2 powi e)))"

subsection \<open>Arithmetic\<close>

text \<open>Unary minus.\<close>

fun js_neg :: "number \<Rightarrow> number" where
  "js_neg (Finite a) = Finite (- a)"
| "js_neg NaN = NaN"
| "js_neg PosInfinity = NegInfinity"
| "js_neg NegInfinity = PosInfinity"

text \<open>The sign of a number that is not \<open>NaN\<close>, and the infinity of a sign (none for zero).\<close>

fun js_sign :: "number \<Rightarrow> real" where
  "js_sign (Finite a) = sgn a"
| "js_sign NaN = 0"
| "js_sign PosInfinity = 1"
| "js_sign NegInfinity = - 1"

definition infinity_of :: "real \<Rightarrow> number" where
  "infinity_of s = (if 0 < s then PosInfinity else if s < 0 then NegInfinity else NaN)"

text \<open>The sum \<open>a + b\<close>; the difference \<open>a - b\<close> is the sum of \<open>a\<close> and \<open>- b\<close>.\<close>

fun js_add :: "number \<Rightarrow> number \<Rightarrow> number" where
  "js_add (Finite a) (Finite b) = round64 (a + b)"
| "js_add NaN b = NaN"
| "js_add a NaN = NaN"
| "js_add PosInfinity NegInfinity = NaN"
| "js_add NegInfinity PosInfinity = NaN"
| "js_add PosInfinity b = PosInfinity"
| "js_add NegInfinity b = NegInfinity"
| "js_add a PosInfinity = PosInfinity"
| "js_add a NegInfinity = NegInfinity"

definition js_sub :: "number \<Rightarrow> number \<Rightarrow> number" where
  "js_sub a b = js_add a (js_neg b)"

text \<open>The product \<open>a * b\<close>: an infinity times zero is \<open>NaN\<close>.\<close>

fun js_mul :: "number \<Rightarrow> number \<Rightarrow> number" where
  "js_mul (Finite a) (Finite b) = round64 (a * b)"
| "js_mul NaN b = NaN"
| "js_mul a NaN = NaN"
| "js_mul a b = infinity_of (js_sign a * js_sign b)"

text \<open>
  The quotient \<open>a / b\<close>: a finite number over zero is the infinity of its sign and
  zero over zero is \<open>NaN\<close>; a finite number over an infinity is zero.
\<close>

fun js_div :: "number \<Rightarrow> number \<Rightarrow> number" where
  "js_div (Finite a) (Finite b) = (if b = 0 then infinity_of (sgn a) else round64 (a / b))"
| "js_div NaN b = NaN"
| "js_div a NaN = NaN"
| "js_div (Finite a) b = Finite 0"
| "js_div a (Finite b) = infinity_of (js_sign a * (if b < 0 then - 1 else 1))"
| "js_div a b = NaN"

text \<open>
  The square \<open>a ** 2\<close>, taken as the product \<open>a * a\<close> rounded once (the language
  leaves the accuracy of \<open>**\<close> to the implementation).
\<close>

definition js_sq :: "number \<Rightarrow> number" where
  "js_sq a = js_mul a a"

text \<open>\<open>Math.floor\<close>: the floor of a binary64 number is a binary64 number.\<close>

fun Math_floor :: "number \<Rightarrow> number" where
  "Math_floor (Finite a) = Finite (of_int \<lfloor>a\<rfloor>)"
| "Math_floor a = a"

text \<open>
  The remainder \<open>a % b\<close> of two finite numbers: the quotient is truncated towards
  zero, so the result has the sign of the dividend. It is exact.
\<close>

definition js_trunc :: "real \<Rightarrow> int" where
  "js_trunc q = (if 0 \<le> q then \<lfloor>q\<rfloor> else \<lceil>q\<rceil>)"

definition js_rem :: "real \<Rightarrow> real \<Rightarrow> number" where
  "js_rem a b = (if b = 0 then NaN else Finite (a - b * of_int (js_trunc (a / b))))"

subsection \<open>Number.prototype.toFixed\<close>

text \<open>The character of a digit \<open>d < 10\<close>.\<close>

definition digit_char :: "nat \<Rightarrow> char" where
  "digit_char d = ''0123456789'' ! d"

definition is_digit :: "char \<Rightarrow> bool" where
  "is_digit c = (48 \<le> (of_char c :: nat) \<and> (of_char c :: nat) \<le> 57)"

definition digit_val :: "char \<Rightarrow> nat" where
  "digit_val c = of_char c - 48"

text \<open>The decimal digits of a natural number, with no leading zero.\<close>

function decimal :: "nat \<Rightarrow> string" where
  "decimal n = (if n < 10 then [digit_char n] else decimal (n div 10) @ [digit_char (n mod 10)])"
  by pat_completeness auto
termination
  by (relation "measure (\<lambda>n. n)") auto

declare decimal.simps [simp del]

text \<open>
  \<open>fixed_digits f a\<close> is \<open>toFixed\<close> on a magnitude \<open>a \<ge> 0\<close>: the integer
  \<open>n\<close> nearest to \<open>a * 10 ^ f\<close> (the larger one of two), written in decimal, padded
  with zeros to \<open>f + 1\<close> digits, with a point before the last \<open>f\<close> digits.
  JavaScript switches to exponent notation from \<open>10 ^ 21\<close> on; the model keeps the
  positional notation there, so it is the program's string below \<open>10 ^ 21\<close> only
  (both strings denote the same number).
\<close>

definition fixed_digits :: "nat \<Rightarrow> real \<Rightarrow> string" where
  "fixed_digits f a =
     (let n = nat \<lfloor>a * 10 ^ f + 1 / 2\<rfloor>;
          m = decimal n
      in if f = 0 then m
         else (let m' = replicate (f + 1 - length m) (CHR ''0'') @ m;
                   k = length m'
               in take (k - f) m' @ CHR ''.'' # drop (k - f) m'))"

fun toFixed :: "nat \<Rightarrow> number \<Rightarrow> string" where
  "toFixed f (Finite a) = (if a < 0 then CHR ''-'' # fixed_digits f (- a) else fixed_digits f a)"
| "toFixed f NaN = ''NaN''"
| "toFixed f PosInfinity = ''Infinity''"
| "toFixed f NegInfinity = ''-Infinity''"

subsection \<open>Number(string)\<close>

text \<open>The number a string of digits denotes, read from the left.\<close>

definition digit_step :: "nat \<Rightarrow> char \<Rightarrow> nat" where
  "digit_step a c = 10 * a + digit_val c"

definition digits_value :: "string \<Rightarrow> nat" where
  "digits_value cs = foldl digit_step 0 cs"

text \<open>
  An unsigned decimal literal: \<open>Infinity\<close>, or digits with an optional point, at
  least one digit in all; its value is rounded to binary64. Exponent parts, other
  radixes and white space do not occur in the strings this class writes below
  \<open>10 ^ 21\<close>; the model reads them as \<open>NaN\<close>.
\<close>

definition unsigned_decimal :: "string \<Rightarrow> number" where
  "unsigned_decimal s =
     (if s = ''Infinity'' then PosInfinity
      else (let a = takeWhile (\<lambda>c. c \<noteq> CHR ''.'') s;
                r = dropWhile (\<lambda>c. c \<noteq> CHR ''.'') s
            in case r of
                 [] \<Rightarrow> (if a \<noteq> [] \<and> list_all is_digit a
                        then round64 (of_nat (digits_value a)) else NaN)
               | p # b \<Rightarrow>
                   (if list_all is_digit a \<and> list_all is_digit b \<and> \<not> (a = [] \<and> b = [])
                    then round64 (of_nat (digits_value a) + of_nat (digits_value b) / 10 ^ length b)
                    else NaN)))"

definition StringToNumber :: "string \<Rightarrow> number" where
  "StringToNumber s =
     (case s of
        [] \<Rightarrow> Finite 0
      | c # r \<Rightarrow>
          (if c = CHR ''-'' then js_neg (unsigned_decimal r)
           else if c = CHR ''+'' then unsigned_decimal r
           else unsigned_decimal s))"

text \<open>
  \<open>Number(v)\<close> for a property of \<open>defines\<close>: a string, or \<open>undefined\<close> when the
  property is absent (\<open>None\<close>), which converts to \<open>NaN\<close>.
\<close>

fun Number :: "string option \<Rightarrow> number" where
  "Number None = NaN"
| "Number (Some s) = StringToNumber s"

section \<open>The state of a BoxBlurMaterial\<close>

text \<open>
  A \<open>Vector2\<close> is the pair of its \<open>x\<close> and \<open>y\<close>. The uniforms are the six the
  constructor creates. Camera planes are finite numbers; a texel size is the result of a
  division and may be infinite.
\<close>

record uniforms =
  inputBuffer :: js_value
  depthBuffer :: js_value
  normalDepthBuffer :: js_value
  texelSize :: "number \<times> number"
  cameraNearFar :: "real \<times> real"
  scale :: number

datatype blending = NoBlending | NormalBlending

text \<open>
  The fields the class and its constructor touch. \<open>defines\<close> is the object of
  preprocessor constants: a property that is absent is \<open>None\<close>. \<open>needsUpdate\<close> is the
  flag of the base class that asks for a recompilation; the renderer clears it. The two
  shader sources are imported texts that no accessor reads or writes; they are left out.
\<close>

record material =
  name :: string
  "defines" :: "string \<rightharpoonup> string"
  uniforms :: uniforms
  blending :: blending
  toneMapped :: bool
  depthWrite :: bool
  depthTest :: bool
  needsUpdate :: bool

datatype error = Error string

text \<open>
  How a call that may throw completes: normally, with the new state, or by throwing, with
  the state the object is left in at the \<open>throw\<close>.
\<close>

datatype completion = Normal (state_of: material) | Throw error (state_of: material)

text \<open>What \<open>camera.near\<close>, \<open>camera.far\<close> and \<open>camera instanceof PerspectiveCamera\<close> give.\<close>

record camera =
  camera_near :: real
  camera_far :: real
  instanceof_PerspectiveCamera :: bool

section \<open>Accessors and methods\<close>

definition set_maxVaryingVectors :: "number \<Rightarrow> material \<Rightarrow> material" where
  "set_maxVaryingVectors v s =
     s\<lparr>defines := (defines s)(''MAX_VARYING_VECTORS'' \<mapsto> toFixed 0 v)\<rparr>"

definition get_kernelSize :: "material \<Rightarrow> number" where
  "get_kernelSize s = Number (defines s ''KERNEL_SIZE'')"

definition set_kernelSize :: "real \<Rightarrow> material \<Rightarrow> completion" where
  "set_kernelSize v s =
     (if js_rem v 2 = Finite 0
      then Throw (Error ''The kernel size must be an odd number'') s
      else Normal (s\<lparr>defines := (defines s)
             (''KERNEL_SIZE'' \<mapsto> toFixed 0 (Finite v),
              ''KERNEL_SIZE_HALF'' \<mapsto> toFixed 0 (Math_floor (js_div (Finite v) (Finite 2))),
              ''KERNEL_SIZE_SQ'' \<mapsto> toFixed 0 (js_sq (Finite v)),
              ''KERNEL_SIZE_SQ_HALF'' \<mapsto>
                 toFixed 0 (Math_floor (js_div (js_sq (Finite v)) (Finite 2))),
              ''INV_KERNEL_SIZE_SQ'' \<mapsto> toFixed 6 (js_div (Finite 1) (js_sq (Finite v)))),
           needsUpdate := True\<rparr>))"

definition get_scale :: "material \<Rightarrow> number" where
  "get_scale s = scale (uniforms s)"

definition set_scale :: "number \<Rightarrow> material \<Rightarrow> material" where
  "set_scale v s = s\<lparr>uniforms := (uniforms s)\<lparr>scale := v\<rparr>\<rparr>"

definition get_near :: "material \<Rightarrow> real" where
  "get_near s = fst (cameraNearFar (uniforms s))"

definition get_far :: "material \<Rightarrow> real" where
  "get_far s = snd (cameraNearFar (uniforms s))"

definition set_inputBuffer :: "js_value \<Rightarrow> material \<Rightarrow> material" where
  "set_inputBuffer v s = s\<lparr>uniforms := (uniforms s)\<lparr>inputBuffer := v\<rparr>\<rparr>"

definition set_depthBuffer :: "js_value \<Rightarrow> material \<Rightarrow> material" where
  "set_depthBuffer v s = s\<lparr>uniforms := (uniforms s)\<lparr>depthBuffer := v\<rparr>\<rparr>"

definition set_normalDepthBuffer :: "js_value \<Rightarrow> material \<Rightarrow> material" where
  "set_normalDepthBuffer v s =
     (let s1 = s\<lparr>uniforms := (uniforms s)\<lparr>normalDepthBuffer := v\<rparr>\<rparr>;
          s2 = (if v \<noteq> JSNull
                then s1\<lparr>defines := (defines s1)(''NORMAL_DEPTH'' \<mapsto> ''1'')\<rparr>
                else s1\<lparr>defines := (defines s1)(''NORMAL_DEPTH'' := None)\<rparr>)
      in s2\<lparr>needsUpdate := True\<rparr>)"

definition set_depthPacking :: "number \<Rightarrow> material \<Rightarrow> material" where
  "set_depthPacking v s =
     s\<lparr>defines := (defines s)(''DEPTH_PACKING'' \<mapsto> toFixed 0 v), needsUpdate := True\<rparr>"

definition get_bilateral :: "material \<Rightarrow> bool" where
  "get_bilateral s = (defines s ''BILATERAL'' \<noteq> None)"

definition set_bilateral :: "js_value \<Rightarrow> material \<Rightarrow> material" where
  "set_bilateral v s =
     (let s1 = (if v \<noteq> JSNull
                then s\<lparr>defines := (defines s)(''BILATERAL'' \<mapsto> ''1'')\<rparr>
                else s\<lparr>defines := (defines s)(''BILATERAL'' := None)\<rparr>)
      in s1\<lparr>needsUpdate := True\<rparr>)"

text \<open>
  Modelled from the spec: \<open>viewZToOrthographicDepth\<close>, which the class imports from
  \<open>utils\<close> and which is not among the sources. The spec describes the two depth
  conversions as pure, mutually inverse functions of a depth and the planes \<open>near\<close>
  and \<open>far\<close>, for an orthographic-style encoding: a linear rescale into \<open>[0, 1]\<close> of
  a view-space depth that is negative in front of the camera. So the view depths from
  \<open>- near\<close> to \<open>- far\<close> go to the encoded depths from \<open>0\<close> to \<open>1\<close>:
  \<open>(viewZ + near) / (near - far)\<close>, in the arithmetic of the language.
\<close>

definition viewZToOrthographicDepth :: "real \<Rightarrow> real \<Rightarrow> real \<Rightarrow> number" where
  "viewZToOrthographicDepth viewZ near far =
     js_div (js_add (Finite viewZ) (Finite near)) (js_sub (Finite near) (Finite far))"

text \<open>
  Modelled from the spec: \<open>orthographicDepthToViewZ\<close>, the inverse of the rescale above,
  not among the sources either: \<open>depth * (near - far) - near\<close>, in the arithmetic of the
  language.
\<close>

definition orthographicDepthToViewZ :: "number \<Rightarrow> real \<Rightarrow> real \<Rightarrow> number" where
  "orthographicDepthToViewZ depth near far =
     js_sub (js_mul depth (js_sub (Finite near) (Finite far))) (Finite near)"

definition get_worldDistanceThreshold :: "material \<Rightarrow> number" where
  "get_worldDistanceThreshold s =
     js_neg (orthographicDepthToViewZ (Number (defines s ''DISTANCE_THRESHOLD''))
               (get_near s) (get_far s))"

definition set_worldDistanceThreshold :: "real \<Rightarrow> material \<Rightarrow> material" where
  "set_worldDistanceThreshold v s =
     (let threshold = viewZToOrthographicDepth (- v) (get_near s) (get_far s)
      in s\<lparr>defines := (defines s)(''DISTANCE_THRESHOLD'' \<mapsto> toFixed 12 threshold),
           needsUpdate := True\<rparr>)"

text \<open>
  \<open>copyCameraSettings(camera)\<close>: \<open>None\<close> is a \<open>null\<close> or \<open>undefined\<close> argument, which
  fails the test \<open>if(camera)\<close>.
\<close>

definition copyCameraSettings :: "camera option \<Rightarrow> material \<Rightarrow> material" where
  "copyCameraSettings c s =
     (case c of
        None \<Rightarrow> s
      | Some cam \<Rightarrow>
          (let s1 = s\<lparr>uniforms := (uniforms s)\<lparr>cameraNearFar := (camera_near cam, camera_far cam)\<rparr>\<rparr>;
               s2 = (if instanceof_PerspectiveCamera cam
                     then s1\<lparr>defines := (defines s1)(''PERSPECTIVE_CAMERA'' \<mapsto> ''1'')\<rparr>
                     else s1\<lparr>defines := (defines s1)(''PERSPECTIVE_CAMERA'' := None)\<rparr>)
           in s2\<lparr>needsUpdate := True\<rparr>))"

definition setSize :: "real \<Rightarrow> real \<Rightarrow> material \<Rightarrow> material" where
  "setSize width height s =
     s\<lparr>uniforms := (uniforms s)
          \<lparr>texelSize := (js_div (Finite 1) (Finite width), js_div (Finite 1) (Finite height))\<rparr>\<rparr>"

subsection \<open>The constructor\<close>

text \<open>
  The options object: \<open>JSUndefined\<close> and \<open>None\<close> stand for a property that is absent,
  which takes the default of the destructuring pattern.
\<close>

record options =
  bilateral :: js_value
  kernelSize :: "real option"

definition no_options :: options where
  "no_options = \<lparr>bilateral = JSUndefined, kernelSize = None\<rparr>"

text \<open>The state after the call of the base class's constructor.\<close>

definition super_ShaderMaterial :: material where
  "super_ShaderMaterial =
     \<lparr>name = ''BoxBlurMaterial'',
      defines = [''DEPTH_PACKING'' \<mapsto> ''0'', ''DISTANCE_THRESHOLD'' \<mapsto> ''0.1''],
      uniforms = \<lparr>inputBuffer = JSNull, depthBuffer = JSNull, normalDepthBuffer = JSNull,
                  texelSize = (Finite 0, Finite 0), cameraNearFar = (0, 0),
                  scale = Finite 1\<rparr>,
      blending = NoBlending,
      toneMapped = False,
      depthWrite = False,
      depthTest = False,
      needsUpdate = False\<rparr>"

definition new_BoxBlurMaterial :: "options \<Rightarrow> completion" where
  "new_BoxBlurMaterial opts =
     (let b = (if bilateral opts = JSUndefined then JSBoolean False else bilateral opts);
          k = (case kernelSize opts of None \<Rightarrow> 5 | Some v \<Rightarrow> v);
          s1 = set_bilateral b super_ShaderMaterial
      in case set_kernelSize k s1 of
           Throw e s2 \<Rightarrow> Throw e s2
         | Normal s2 \<Rightarrow> Normal (set_maxVaryingVectors (Finite 8) s2))"

section \<open>Properties of the rounding\<close>

text \<open>The nearest integer is within one half, and an integer is its own nearest integer.\<close>

lemma round_even_error: "\<bar>of_int (round_even x) - x\<bar> \<le> 1 / 2"
  unfolding round_even_def Let_def by (auto; linarith)

lemma round_even_of_int: "round_even (of_int k) = k"
  by (simp add: round_even_def)

text \<open>Powers of two with an integer exponent.\<close>

lemma two_powi_pos: "0 < (2::real) powi e"
  by (simp add: zero_less_power_int)

lemma two_powi_Suc: "(2::real) powi e = 2 * 2 powi (e - 1)"
  using power_int_add [of "2::real" "e - 1" 1] by simp

lemma two_powi_mono: "d \<le> e \<Longrightarrow> (2::real) powi d \<le> 2 powi e"
  by (rule power_int_increasing) simp_all

lemma two_powi_less_imp: "(2::real) powi d < 2 powi e \<Longrightarrow> d < e"
  by (rule ccontr) (use two_powi_mono [of e d] in simp)

text \<open>
  The search returns an exponent between \<open>- 1074\<close> and \<open>971\<close>; the magnitude is below
  \<open>2 ^ 53\<close> units, and at least \<open>2 ^ 52\<close> units unless the exponent is the least one.
\<close>

lemma ulp_search_props:
  assumes "a < 2 ^ 53 * 2 powi e"
  shows "e - int k \<le> ulp_search k a e \<and> ulp_search k a e \<le> e
         \<and> a < 2 ^ 53 * 2 powi (ulp_search k a e)
         \<and> (2 ^ 52 * 2 powi (ulp_search k a e) \<le> a \<or> ulp_search k a e = e - int k)"
  using assms
proof (induction k arbitrary: e)
  case 0
  then show ?case by simp
next
  case (Suc k)
  show ?case
  proof (cases "a < 2 ^ 52 * 2 powi e")
    case True
    then have "a < 2 ^ 53 * 2 powi (e - 1)"
      using two_powi_Suc [of e] by simp
    from Suc.IH [OF this] True show ?thesis by auto
  next
    case False
    with Suc.prems show ?thesis by simp
  qed
qed

lemma ulp_exponent_props:
  assumes "a < 2 ^ 1024"
  shows "- 1074 \<le> ulp_exponent a" and "ulp_exponent a \<le> 971"
    and "a < 2 ^ 53 * 2 powi (ulp_exponent a)"
    and "2 ^ 52 * 2 powi (ulp_exponent a) \<le> a \<or> ulp_exponent a = - 1074"
proof -
  have "a < 2 ^ 53 * 2 powi 971" using assms by simp
  from ulp_search_props [OF this, of 2045]
  show "- 1074 \<le> ulp_exponent a" and "ulp_exponent a \<le> 971"
    and "a < 2 ^ 53 * 2 powi (ulp_exponent a)"
    and "2 ^ 52 * 2 powi (ulp_exponent a) \<le> a \<or> ulp_exponent a = - 1074"
    by (simp_all add: ulp_exponent_def)
qed

lemma ulp_exponent_eqI:
  assumes "- 1074 \<le> e" and "e \<le> 971"
    and lo: "2 ^ 52 * 2 powi e \<le> a" and hi: "a < 2 ^ 53 * 2 powi e"
  shows "ulp_exponent a = e"
proof -
  have "(2::real) powi e \<le> 2 powi 971"
    using assms(2) by (rule two_powi_mono)
  then have "2 ^ 53 * 2 powi e \<le> 2 ^ 53 * (2::real) powi 971"
    by (rule mult_left_mono) simp
  also have "2 ^ 53 * (2::real) powi 971 = 2 ^ 1024" by simp
  finally have a: "a < 2 ^ 1024" using hi by simp
  note p = ulp_exponent_props [OF a]
  let ?E = "ulp_exponent a"
  have "2 ^ 52 * 2 powi e < 2 ^ 53 * (2::real) powi ?E" using lo p(3) by linarith
  then have "(2::real) powi e < 2 powi (?E + 1)"
    using two_powi_Suc [of "?E + 1"] by simp
  then have 1: "e \<le> ?E" using two_powi_less_imp by fastforce
  from p(4) show ?thesis
  proof
    assume "2 ^ 52 * 2 powi ?E \<le> a"
    with hi have "2 ^ 52 * 2 powi ?E < 2 ^ 53 * (2::real) powi e" by linarith
    then have "(2::real) powi ?E < 2 powi (e + 1)"
      using two_powi_Suc [of "e + 1"] by simp
    then have "?E \<le> e" using two_powi_less_imp by fastforce
    with 1 show ?thesis by simp
  next
    assume "?E = - 1074"
    with 1 assms(1) show ?thesis by simp
  qed
qed

lemma round64_Finite:
  assumes "\<bar>x\<bar> < 2 ^ 1024 - 2 ^ 970"
  shows "round64 x = Finite (of_int (round_even (x / 2 powi ulp_exponent \<bar>x\<bar>))
                              * 2 powi ulp_exponent \<bar>x\<bar>)"
  using assms by (simp add: round64_def Let_def)

text \<open>The rule that evaluates \<open>round64\<close> once the exponent is known.\<close>

lemma round64_evalI:
  assumes "- 1074 \<le> e" and "e \<le> 970"
    and "2 ^ 52 * 2 powi e \<le> \<bar>x\<bar>" and hi: "\<bar>x\<bar> < 2 ^ 53 * 2 powi e"
    and y: "y = of_int (round_even (x / 2 powi e)) * 2 powi e"
  shows "round64 x = Finite y"
proof -
  have E: "ulp_exponent \<bar>x\<bar> = e"
    using assms(1-4) by (intro ulp_exponent_eqI) simp_all
  have "(2::real) powi e \<le> 2 powi 970"
    using assms(2) by (rule two_powi_mono)
  then have "2 ^ 53 * 2 powi e \<le> 2 ^ 53 * (2::real) powi 970"
    by (rule mult_left_mono) simp
  also have "2 ^ 53 * (2::real) powi 970 < 2 ^ 1024 - 2 ^ 970" by simp
  finally have "\<bar>x\<bar> < 2 ^ 1024 - 2 ^ 970" using hi by simp
  from round64_Finite [OF this] show ?thesis unfolding E y .
qed

text \<open>
  The error of the rounding: half a unit in the last place, which is at most the
  magnitude over \<open>2 ^ 53\<close> for a normal number and \<open>2 ^ - 1075\<close> for a subnormal one.
\<close>

lemma round64_error:
  assumes "\<bar>x\<bar> < 2 ^ 1024 - 2 ^ 970"
  shows "\<exists>y. round64 x = Finite y \<and> \<bar>y - x\<bar> \<le> \<bar>x\<bar> / 2 ^ 53 + 1 / 2 ^ 1075
             \<and> (1 / 2 ^ 1022 \<le> \<bar>x\<bar> \<longrightarrow> \<bar>y - x\<bar> \<le> \<bar>x\<bar> / 2 ^ 53)"
proof -
  define E where "E = ulp_exponent \<bar>x\<bar>"
  define z where "z = x / 2 powi E"
  define y :: real where "y = of_int (round_even z) * 2 powi E"
  have a: "\<bar>x\<bar> < 2 ^ 1024" using assms by simp
  note p = ulp_exponent_props [OF a, folded E_def]
  have pos: "0 < (2::real) powi E" by (rule two_powi_pos)
  have x: "x = z * 2 powi E" using pos by (simp add: z_def)
  have "y - x = (of_int (round_even z) - z) * 2 powi E"
    unfolding y_def by (subst x) (simp add: algebra_simps)
  then have "\<bar>y - x\<bar> = \<bar>of_int (round_even z) - z\<bar> * 2 powi E"
    using pos by (simp add: abs_mult)
  also have "\<dots> \<le> 1 / 2 * 2 powi E"
    using pos by (intro mult_right_mono round_even_error) simp
  finally have d: "\<bar>y - x\<bar> \<le> 2 powi E / 2" by simp
  have small: "(2::real) powi (- 1074) / 2 = 1 / 2 ^ 1075"
    by (simp add: power_int_minus_divide)
  have normal: "\<bar>y - x\<bar> \<le> \<bar>x\<bar> / 2 ^ 53" if "2 ^ 52 * 2 powi E \<le> \<bar>x\<bar>"
  proof -
    have "(2::real) powi E / 2 = 2 ^ 52 * 2 powi E / 2 ^ 53" by simp
    also have "\<dots> \<le> \<bar>x\<bar> / 2 ^ 53" using that by (intro divide_right_mono) simp_all
    finally show ?thesis using d by linarith
  qed
  have 1: "\<bar>y - x\<bar> \<le> \<bar>x\<bar> / 2 ^ 53 + 1 / 2 ^ 1075"
  proof (cases "2 ^ 52 * 2 powi E \<le> \<bar>x\<bar>")
    case True
    from normal [OF this] show ?thesis by simp
  next
    case False
    with p(4) have "E = - 1074" by simp
    with d small have "\<bar>y - x\<bar> \<le> 1 / 2 ^ 1075" by simp
    moreover have "0 \<le> \<bar>x\<bar> / 2 ^ 53" by simp
    ultimately show ?thesis by linarith
  qed
  have 2: "\<bar>y - x\<bar> \<le> \<bar>x\<bar> / 2 ^ 53" if n: "1 / 2 ^ 1022 \<le> \<bar>x\<bar>"
  proof (cases "2 ^ 52 * 2 powi E \<le> \<bar>x\<bar>")
    case True
    from normal [OF this] show ?thesis .
  next
    case False
    with p(4) have "E = - 1074" by simp
    moreover have "2 ^ 52 * (2::real) powi (- 1074) = 1 / 2 ^ 1022"
      by (simp add: power_int_minus_divide)
    ultimately show ?thesis using False n by simp
  qed
  have "round64 x = Finite y"
    using round64_Finite [OF assms] by (simp add: y_def z_def E_def)
  with 1 2 show ?thesis by blast
qed

text \<open>A significand of at most 53 bits times a power of two in range is a binary64 number.\<close>

lemma round64_exact:
  assumes m: "\<bar>m\<bar> \<le> 2 ^ 53" and e: "- 1074 \<le> e"
    and r: "\<bar>real_of_int m * 2 powi e\<bar> < 2 ^ 1024 - 2 ^ 970"
  shows "round64 (of_int m * 2 powi e) = Finite (of_int m * 2 powi e)"
proof -
  define x where "x = real_of_int m * 2 powi e"
  define E where "E = ulp_exponent \<bar>x\<bar>"
  have a: "\<bar>x\<bar> < 2 ^ 1024" using r by (simp add: x_def)
  note p = ulp_exponent_props [OF a, folded E_def]
  have ax: "\<bar>x\<bar> = of_int \<bar>m\<bar> * 2 powi e"
    using two_powi_pos [of e] by (simp add: x_def abs_mult)
  have "\<exists>k. x / 2 powi E = of_int k"
  proof (cases "E \<le> e")
    case True
    then have "(2::real) powi e = 2 powi E * 2 ^ nat (e - E)"
      using power_int_add [of "2::real" E "e - E"] by (simp add: power_int_nonneg_exp)
    then have "x / 2 powi E = of_int (m * 2 ^ nat (e - E))"
      using two_powi_pos [of E] by (simp add: x_def)
    then show ?thesis by blast
  next
    case False
    with e have "E \<noteq> - 1074" by simp
    with p(4) have "2 ^ 52 * 2 powi E \<le> \<bar>x\<bar>" by simp
    moreover have "(2::real) powi (e + 1) \<le> 2 powi E"
      using False by (intro two_powi_mono) simp
    then have "2 * (2::real) powi e \<le> 2 powi E"
      using two_powi_Suc [of "e + 1"] by simp
    then have "2 ^ 52 * (2 * (2::real) powi e) \<le> 2 ^ 52 * 2 powi E"
      by (rule mult_left_mono) simp
    ultimately have "2 ^ 52 * (2 * 2 powi e) \<le> real_of_int \<bar>m\<bar> * 2 powi e"
      unfolding ax by (rule order_trans [rotated])
    then have "2 ^ 53 * (2::real) powi e \<le> of_int \<bar>m\<bar> * 2 powi e" by simp
    then have "(2::real) ^ 53 \<le> of_int \<bar>m\<bar>"
      using two_powi_pos [of e] by simp
    then have "(2::int) ^ 53 \<le> \<bar>m\<bar>"
      by (metis of_int_le_iff of_int_numeral of_int_power)
    with m have mm: "\<bar>m\<bar> = 2 ^ 53" by simp
    have up: "\<bar>x\<bar> < 2 ^ 53 * 2 powi E" by (rule p(3))
    have "(2::real) powi e < 2 powi E"
      using up unfolding ax mm by simp
    have "2 powi E \<le> 2 * (2::real) powi e"
    proof -
      have "2 ^ 52 * 2 powi E \<le> 2 ^ 53 * (2::real) powi e"
        using \<open>2 ^ 52 * 2 powi E \<le> \<bar>x\<bar>\<close> unfolding ax mm by simp
      then show ?thesis by simp
    qed
    moreover have "(2::real) powi (e + 2) = 4 * 2 powi e"
      using power_int_add [of "2::real" e 2] by simp
    ultimately have "(2::real) powi E < 2 powi (e + 2)"
      using two_powi_pos [of e] by linarith
    with \<open>(2::real) powi e < 2 powi E\<close> have "E = e + 1"
      using two_powi_less_imp [of e E] two_powi_less_imp [of E "e + 2"] by simp
    then have "(2::real) powi E = 2 * 2 powi e"
      using two_powi_Suc [of "e + 1"] by simp
    moreover have "even \<bar>m\<bar>" unfolding mm by simp
    then obtain j where j: "m = 2 * j" by (auto elim: evenE)
    ultimately have "x / 2 powi E = of_int j"
      using two_powi_pos [of e] by (simp add: x_def)
    then show ?thesis by blast
  qed
  then obtain k where k: "x / 2 powi E = of_int k" by blast
  then have "of_int (round_even (x / 2 powi E)) * 2 powi E = x"
    using two_powi_pos [of E] by (simp add: round_even_of_int field_simps)
  then show ?thesis
    using round64_Finite [of x] r by (simp add: x_def [symmetric] E_def)
qed

lemma round64_of_int:
  assumes "\<bar>k\<bar> \<le> 2 ^ 53"
  shows "round64 (of_int k) = Finite (of_int k)"
proof -
  have "\<bar>real_of_int k\<bar> \<le> 2 ^ 53" using assms by (metis of_int_abs of_int_le_iff of_int_numeral of_int_power)
  then have "\<bar>real_of_int k * 2 powi 0\<bar> < 2 ^ 1024 - 2 ^ 970" by simp
  from round64_exact [OF assms _ this] show ?thesis by simp
qed

lemma round64_half_int:
  assumes "\<bar>k\<bar> \<le> 2 ^ 53"
  shows "round64 (of_int k / 2) = Finite (of_int k / 2)"
proof -
  have "\<bar>real_of_int k\<bar> \<le> 2 ^ 53" using assms by (metis of_int_abs of_int_le_iff of_int_numeral of_int_power)
  then have "\<bar>real_of_int k * 2 powi (- 1)\<bar> < 2 ^ 1024 - 2 ^ 970" by simp
  from round64_exact [OF assms _ this] show ?thesis by simp
qed

text \<open>The error bound without absolute values, for a magnitude of at most \<open>X\<close>.\<close>

lemma round64_between:
  assumes "- X \<le> x" and "x \<le> X" and "X \<le> 2 ^ 1000" and h: "1 / 2 ^ 1075 \<le> h"
  obtains y where "round64 x = Finite y"
    and "x - (X / 2 ^ 53 + h) \<le> y" and "y \<le> x + (X / 2 ^ 53 + h)"
proof -
  have ax: "\<bar>x\<bar> \<le> X" using assms(1,2) by (simp add: abs_le_iff)
  also have "X \<le> 2 ^ 1000" by fact
  also have "(2::real) ^ 1000 < 2 ^ 1024 - 2 ^ 970" by simp
  finally obtain y where y: "round64 x = Finite y"
    and e: "\<bar>y - x\<bar> \<le> \<bar>x\<bar> / 2 ^ 53 + 1 / 2 ^ 1075"
    using round64_error [of x] by blast
  have "\<bar>x\<bar> / 2 ^ 53 \<le> X / 2 ^ 53" using ax by (intro divide_right_mono) simp_all
  with e h have "\<bar>y - x\<bar> \<le> X / 2 ^ 53 + h" by linarith
  then have "x - (X / 2 ^ 53 + h) \<le> y" and "y \<le> x + (X / 2 ^ 53 + h)"
    by (simp_all add: abs_le_iff)
  with y show thesis by (rule that)
qed

section \<open>Reading back what toFixed writes\<close>

lemma digit_char_props:
  assumes "d < 10"
  shows "is_digit (digit_char d)" and "digit_val (digit_char d) = d"
proof -
  from assms have "d \<in> {0, 1, 2, 3, 4, 5, 6, 7, 8, 9}" by auto
  then show "is_digit (digit_char d)" and "digit_val (digit_char d) = d"
    by (auto simp: digit_char_def is_digit_def digit_val_def)
qed

lemma is_digit_not_point: "is_digit c \<Longrightarrow> c \<noteq> CHR ''.''"
  by (auto simp: is_digit_def)

lemma is_digit_not_sign: "is_digit c \<Longrightarrow> c \<noteq> CHR ''-'' \<and> c \<noteq> CHR ''+'' \<and> c \<noteq> CHR ''I''"
  by (auto simp: is_digit_def)

lemma decimal_digits: "list_all is_digit (decimal n)"
proof (induction n rule: decimal.induct)
  case (1 n)
  show ?case
  proof (cases "n < 10")
    case True
    then show ?thesis by (simp add: decimal.simps [of n] digit_char_props)
  next
    case False
    with 1 show ?thesis by (simp add: decimal.simps [of n] digit_char_props)
  qed
qed

lemma decimal_nonempty: "decimal n \<noteq> []"
  by (simp add: decimal.simps [of n])

lemma foldl_digit_step:
  "foldl digit_step a cs = a * 10 ^ length cs + foldl digit_step 0 cs"
proof (induction cs arbitrary: a)
  case Nil
  show ?case by simp
next
  case (Cons c cs)
  have step: "digit_step a c = 10 * a + digit_step 0 c"
    by (simp add: digit_step_def)
  have "foldl digit_step a (c # cs) = foldl digit_step (digit_step a c) cs"
    by simp
  also have "\<dots> = digit_step a c * 10 ^ length cs + foldl digit_step 0 cs"
    by (rule Cons.IH)
  also have "\<dots> = a * 10 ^ length (c # cs)
                    + (digit_step 0 c * 10 ^ length cs + foldl digit_step 0 cs)"
    by (simp add: step algebra_simps)
  also have "digit_step 0 c * 10 ^ length cs + foldl digit_step 0 cs
               = foldl digit_step 0 (c # cs)"
    using Cons.IH [of "digit_step 0 c"] by simp
  finally show ?case .
qed

lemma digits_value_single: "digits_value [c] = digit_val c"
  by (simp add: digits_value_def digit_step_def)

lemma digits_value_append:
  "digits_value (xs @ ys) = digits_value xs * 10 ^ length ys + digits_value ys"
  unfolding digits_value_def foldl_append by (rule foldl_digit_step)

lemma digits_value_decimal: "digits_value (decimal n) = n"
proof (induction n rule: decimal.induct)
  case (1 n)
  show ?case
  proof (cases "n < 10")
    case True
    then show ?thesis
      by (simp add: decimal.simps [of n] digits_value_single digit_char_props)
  next
    case False
    with 1 have "digits_value (decimal (n div 10)) = n div 10" by simp
    with False show ?thesis
      by (simp add: decimal.simps [of n] digits_value_append)
         (simp add: digits_value_single digit_char_props)
  qed
qed

lemma digits_value_zeros: "digits_value (replicate k (CHR ''0'')) = 0"
proof (induction k)
  case 0
  show ?case by (simp add: digits_value_def)
next
  case (Suc k)
  have "digits_value (CHR ''0'' # replicate k (CHR ''0''))
          = digits_value [CHR ''0''] * 10 ^ k + digits_value (replicate k (CHR ''0''))"
    using digits_value_append [of "[CHR ''0'']" "replicate k (CHR ''0'')"] by simp
  with Suc show ?case
    by (simp add: digits_value_single digit_val_def)
qed

lemma takeWhile_digits:
  "list_all is_digit a \<Longrightarrow> takeWhile (\<lambda>c. c \<noteq> CHR ''.'') (a @ CHR ''.'' # b) = a"
  by (induction a) (auto dest: is_digit_not_point)

lemma dropWhile_digits:
  "list_all is_digit a \<Longrightarrow> dropWhile (\<lambda>c. c \<noteq> CHR ''.'') (a @ CHR ''.'' # b) = CHR ''.'' # b"
  by (induction a) (auto dest: is_digit_not_point)

lemma takeWhile_all_digits:
  "list_all is_digit a \<Longrightarrow> takeWhile (\<lambda>c. c \<noteq> CHR ''.'') a = a"
  by (induction a) (auto dest: is_digit_not_point)

lemma dropWhile_all_digits:
  "list_all is_digit a \<Longrightarrow> dropWhile (\<lambda>c. c \<noteq> CHR ''.'') a = []"
  by (induction a) (auto dest: is_digit_not_point)

lemma digits_not_Infinity:
  "list_all is_digit a \<Longrightarrow> a \<noteq> [] \<Longrightarrow> a @ t \<noteq> ''Infinity''"
  by (cases a) (auto dest: is_digit_not_sign)

lemma unsigned_decimal_digits:
  assumes "list_all is_digit a" and "a \<noteq> []"
  shows "unsigned_decimal a = round64 (of_nat (digits_value a))"
  using assms digits_not_Infinity [OF assms, of "[]"]
  by (simp add: unsigned_decimal_def takeWhile_all_digits dropWhile_all_digits)

lemma unsigned_decimal_point:
  assumes "list_all is_digit a" and "a \<noteq> []" and "list_all is_digit b"
  shows "unsigned_decimal (a @ CHR ''.'' # b)
           = round64 (of_nat (digits_value a) + of_nat (digits_value b) / 10 ^ length b)"
  using assms digits_not_Infinity [OF assms(1,2), of "CHR ''.'' # b"]
  by (simp add: unsigned_decimal_def takeWhile_digits dropWhile_digits)

lemma padded_digits:
  assumes "m' = replicate z (CHR ''0'') @ decimal n"
  shows "list_all is_digit m'" and "digits_value m' = n" and "m' \<noteq> []"
proof -
  have zero: "is_digit (CHR ''0'')" by (simp add: is_digit_def)
  show "list_all is_digit m'"
    using decimal_digits [of n] zero by (auto simp: assms list_all_iff)
  show "digits_value m' = n"
    by (simp add: assms digits_value_append digits_value_zeros digits_value_decimal)
  show "m' \<noteq> []"
    by (simp add: assms decimal_nonempty)
qed

lemma split_digits:
  assumes "list_all is_digit m'" and "f < length m'"
  shows "unsigned_decimal (take (length m' - f) m' @ CHR ''.'' # drop (length m' - f) m')
           = round64 (of_nat (digits_value m') / 10 ^ f)"
proof -
  let ?a = "take (length m' - f) m'" and ?b = "drop (length m' - f) m'"
  have a: "list_all is_digit ?a" and b: "list_all is_digit ?b"
    using assms(1) by (auto simp: list_all_iff dest: in_set_takeD in_set_dropD)
  have ne: "?a \<noteq> []" using assms(2) by auto
  have len: "length ?b = f" using assms(2) by simp
  have "digits_value m' = digits_value (?a @ ?b)" by simp
  also have "\<dots> = digits_value ?a * 10 ^ f + digits_value ?b"
    unfolding digits_value_append len ..
  finally have v: "(of_nat (digits_value m') :: real)
                     = of_nat (digits_value ?a) * 10 ^ f + of_nat (digits_value ?b)"
    by simp
  have "unsigned_decimal (?a @ CHR ''.'' # ?b)
          = round64 (of_nat (digits_value ?a) + of_nat (digits_value ?b) / 10 ^ f)"
    using unsigned_decimal_point [OF a ne b] len by simp
  also have "of_nat (digits_value ?a) + of_nat (digits_value ?b) / 10 ^ f
               = (of_nat (digits_value m') :: real) / 10 ^ f"
    unfolding v by (simp add: field_simps)
  finally show ?thesis .
qed

lemma unsigned_decimal_fixed_digits:
  "unsigned_decimal (fixed_digits f a) = round64 (of_nat (nat \<lfloor>a * 10 ^ f + 1 / 2\<rfloor>) / 10 ^ f)"
proof (cases "f = 0")
  case True
  then show ?thesis
    by (simp add: fixed_digits_def unsigned_decimal_digits decimal_digits decimal_nonempty
        digits_value_decimal)
next
  case False
  define n where "n = nat \<lfloor>a * 10 ^ f + 1 / 2\<rfloor>"
  define m' where "m' = replicate (f + 1 - length (decimal n)) (CHR ''0'') @ decimal n"
  have len: "f < length m'" by (simp add: m'_def)
  have "fixed_digits f a = take (length m' - f) m' @ CHR ''.'' # drop (length m' - f) m'"
    using False by (simp add: fixed_digits_def Let_def n_def m'_def)
  then show ?thesis
    using split_digits [OF padded_digits(1) [OF m'_def] len] padded_digits(2) [OF m'_def]
    by (simp add: n_def)
qed

lemma fixed_digits_head: "\<exists>c cs. fixed_digits f a = c # cs \<and> is_digit c"
proof -
  define n where "n = nat \<lfloor>a * 10 ^ f + 1 / 2\<rfloor>"
  define m' where "m' = replicate (f + 1 - length (decimal n)) (CHR ''0'') @ decimal n"
  have d: "list_all is_digit m'" and ne: "m' \<noteq> []"
    using padded_digits [OF m'_def] by simp_all
  show ?thesis
  proof (cases "f = 0")
    case True
    then have "fixed_digits f a = decimal n" by (simp add: fixed_digits_def n_def)
    then show ?thesis
      using decimal_digits [of n] decimal_nonempty [of n] by (cases "decimal n") auto
  next
    case False
    have len: "f < length m'" by (simp add: m'_def)
    have eq: "fixed_digits f a = take (length m' - f) m' @ CHR ''.'' # drop (length m' - f) m'"
      using False by (simp add: fixed_digits_def Let_def n_def m'_def)
    obtain c cs where m: "m' = c # cs" using ne by (cases m') auto
    with d have "is_digit c" by simp
    moreover from len m have "take (length m' - f) m' = c # take (length cs - f) cs"
      by (simp add: take_Cons' Suc_diff_le)
    ultimately show ?thesis using eq by simp
  qed
qed

lemma StringToNumber_fixed_digits:
  "StringToNumber (fixed_digits f a) = round64 (of_nat (nat \<lfloor>a * 10 ^ f + 1 / 2\<rfloor>) / 10 ^ f)"
proof -
  obtain c cs where "fixed_digits f a = c # cs" and "is_digit c"
    using fixed_digits_head by blast
  then have "StringToNumber (fixed_digits f a) = unsigned_decimal (fixed_digits f a)"
    by (auto simp: StringToNumber_def dest: is_digit_not_sign)
  then show ?thesis by (simp add: unsigned_decimal_fixed_digits)
qed

text \<open>
  The number read back from \<open>toFixed f\<close>: the magnitude rounded to \<open>f\<close> decimal
  digits, then rounded to binary64.
\<close>

lemma Number_toFixed:
  "Number (Some (toFixed f (Finite a)))
     = (if a < 0 then js_neg (round64 (of_int \<lfloor>- a * 10 ^ f + 1 / 2\<rfloor> / 10 ^ f))
        else round64 (of_int \<lfloor>a * 10 ^ f + 1 / 2\<rfloor> / 10 ^ f))"
proof (cases "a < 0")
  case True
  have "0 \<le> - a * 10 ^ f"
    using True by (intro mult_nonneg_nonneg) auto
  then have "0 \<le> \<lfloor>- a * 10 ^ f + 1 / 2\<rfloor>"
    unfolding zero_le_floor by linarith
  then have "(of_nat (nat \<lfloor>- a * 10 ^ f + 1 / 2\<rfloor>) :: real) = of_int \<lfloor>- a * 10 ^ f + 1 / 2\<rfloor>"
    by simp
  with True show ?thesis
    by (simp add: StringToNumber_def unsigned_decimal_fixed_digits)
next
  case False
  then have "0 \<le> a * 10 ^ f"
    by (intro mult_nonneg_nonneg) auto
  then have "0 \<le> \<lfloor>a * 10 ^ f + 1 / 2\<rfloor>"
    unfolding zero_le_floor by linarith
  then have "(of_nat (nat \<lfloor>a * 10 ^ f + 1 / 2\<rfloor>) :: real) = of_int \<lfloor>a * 10 ^ f + 1 / 2\<rfloor>"
    by simp
  with False show ?thesis
    by (simp add: StringToNumber_fixed_digits)
qed

declare toFixed.simps [simp del] Number.simps [simp del]

text \<open>
  An integer of at most 53 bits written with no fraction digits is read back as it is.
  In general the number read back differs by at most half a unit of the last decimal
  digit and the rounding to binary64.
\<close>

lemma Number_toFixed_int:
  assumes "\<bar>k\<bar> \<le> 2 ^ 53"
  shows "Number (Some (toFixed 0 (Finite (of_int k)))) = Finite (of_int k)"
proof -
  have f: "\<lfloor>real_of_int j * 10 ^ 0 + 1 / 2\<rfloor> = j" for j
    by (simp only: floor_eq_iff) simp
  have "\<lfloor>- real_of_int k * 10 ^ 0 + 1 / 2\<rfloor> = - k"
    using f [of "- k"] by simp
  moreover have "round64 (of_int (- k)) = Finite (of_int (- k))"
    using assms by (intro round64_of_int) simp
  ultimately show ?thesis
    unfolding Number_toFixed f using round64_of_int [OF assms] by simp
qed

lemma Number_toFixed_error:
  assumes "\<bar>a\<bar> \<le> 2 ^ 1000"
  shows "\<exists>d. Number (Some (toFixed f (Finite a))) = Finite d
             \<and> \<bar>d - a\<bar> \<le> 1 / (2 * 10 ^ f) + (\<bar>a\<bar> + 1) / 2 ^ 53 + 1 / 2 ^ 1075"
proof -
  define q where "q = real_of_int \<lfloor>\<bar>a\<bar> * 10 ^ f + 1 / 2\<rfloor>"
  define s where "s = q / 10 ^ f"
  have "q \<le> \<bar>a\<bar> * 10 ^ f + 1 / 2" and "\<bar>a\<bar> * 10 ^ f + 1 / 2 < q + 1"
    unfolding q_def by linarith+
  then have "\<bar>q - \<bar>a\<bar> * 10 ^ f\<bar> \<le> 1 / 2" by linarith
  then have "\<bar>q - \<bar>a\<bar> * 10 ^ f\<bar> / 10 ^ f \<le> (1 / 2) / 10 ^ f"
    by (intro divide_right_mono) simp_all
  moreover have "\<bar>q - \<bar>a\<bar> * 10 ^ f\<bar> / 10 ^ f = \<bar>s - \<bar>a\<bar>\<bar>"
    by (simp add: s_def field_simps abs_mult flip: abs_divide)
         (simp add: abs_if field_simps)
  ultimately have sa: "\<bar>s - \<bar>a\<bar>\<bar> \<le> 1 / (2 * 10 ^ f)" by simp
  have "1 / (2 * (10::real) ^ f) \<le> 1 / 2"
    by (simp add: field_simps)
  with sa have s1: "\<bar>s\<bar> \<le> \<bar>a\<bar> + 1" by linarith
  with assms have "\<bar>s\<bar> \<le> 2 ^ 1000 + 1" by linarith
  also have "\<dots> < (2::real) ^ 1024 - 2 ^ 970" by simp
  finally obtain y where y: "round64 s = Finite y"
    and e: "\<bar>y - s\<bar> \<le> \<bar>s\<bar> / 2 ^ 53 + 1 / 2 ^ 1075"
    using round64_error [of s] by blast
  have "\<bar>s\<bar> / 2 ^ 53 \<le> (\<bar>a\<bar> + 1) / 2 ^ 53"
    using s1 by (intro divide_right_mono) simp_all
  with e sa have b: "\<bar>y - \<bar>a\<bar>\<bar> \<le> 1 / (2 * 10 ^ f) + (\<bar>a\<bar> + 1) / 2 ^ 53 + 1 / 2 ^ 1075"
    by linarith
  show ?thesis
  proof (cases "a < 0")
    case True
    then have "Number (Some (toFixed f (Finite a))) = Finite (- y)"
      unfolding Number_toFixed using y by (simp add: s_def q_def)
    moreover have "\<bar>- y - a\<bar> = \<bar>y - \<bar>a\<bar>\<bar>" using True by simp
    ultimately show ?thesis using b by auto
  next
    case False
    then have "Number (Some (toFixed f (Finite a))) = Finite y"
      unfolding Number_toFixed using y by (simp add: s_def q_def)
    moreover have "\<bar>y - a\<bar> = \<bar>y - \<bar>a\<bar>\<bar>" using False by simp
    ultimately show ?thesis using b by auto
  qed
qed

lemma Number_toFixed_between:
  assumes "- X \<le> a" and "a \<le> X" and "X \<le> 2 ^ 1000" and h: "1 / 2 ^ 1075 \<le> h"
  obtains d where "Number (Some (toFixed f (Finite a))) = Finite d"
    and "a - (1 / (2 * 10 ^ f) + (X + 1) / 2 ^ 53 + h) \<le> d"
    and "d \<le> a + (1 / (2 * 10 ^ f) + (X + 1) / 2 ^ 53 + h)"
proof -
  have ax: "\<bar>a\<bar> \<le> X" using assms(1,2) by (simp add: abs_le_iff)
  with assms(3) have "\<bar>a\<bar> \<le> 2 ^ 1000" by linarith
  then obtain d where d: "Number (Some (toFixed f (Finite a))) = Finite d"
    and e: "\<bar>d - a\<bar> \<le> 1 / (2 * 10 ^ f) + (\<bar>a\<bar> + 1) / 2 ^ 53 + 1 / 2 ^ 1075"
    using Number_toFixed_error [of a f] by blast
  have "(\<bar>a\<bar> + 1) / 2 ^ 53 \<le> (X + 1) / 2 ^ 53" using ax by (intro divide_right_mono) simp_all
  with e h have "\<bar>d - a\<bar> \<le> 1 / (2 * 10 ^ f) + (X + 1) / 2 ^ 53 + h" by linarith
  then have "a - (1 / (2 * 10 ^ f) + (X + 1) / 2 ^ 53 + h) \<le> d"
    and "d \<le> a + (1 / (2 * 10 ^ f) + (X + 1) / 2 ^ 53 + h)"
    by (simp_all add: abs_le_iff)
  with d show thesis by (rule that)
qed

text \<open>The test \<open>value % 2 === 0\<close> on an integer holds iff the integer is even.\<close>

lemma js_rem_int_2: "(js_rem (of_int n) 2 = Finite 0) = even n"
proof
  assume "js_rem (of_int n) 2 = Finite 0"
  then have "(of_int n :: real) = of_int (2 * js_trunc (of_int n / 2))"
    by (simp add: js_rem_def)
  then have "n = 2 * js_trunc (of_int n / 2)"
    by (simp only: of_int_eq_iff)
  then show "even n" by (metis dvd_triv_left)
next
  assume "even n"
  then obtain k where k: "n = 2 * k" by (auto elim: evenE)
  then show "js_rem (of_int n) 2 = Finite 0"
    by (simp add: js_rem_def js_trunc_def)
qed

subsection \<open>Evaluation on numerals\<close>

text \<open>The equation of \<open>decimal\<close> is unfolded on numerals only, where its test is decided.\<close>

lemma decimal_numeral:
  "decimal (numeral k) =
     (if (numeral k :: nat) < 10 then [digit_char (numeral k)]
      else decimal (numeral k div 10) @ [digit_char (numeral k mod 10)])"
  by (rule decimal.simps)

lemma decimal_0: "decimal 0 = ''0''"
  by (simp add: decimal.simps digit_char_def)

lemma decimal_1: "decimal (Suc 0) = ''1''"
  by (simp add: decimal.simps digit_char_def)

lemma replicate_numeral: "replicate (numeral k) c = c # replicate (pred_numeral k) c"
  by (simp add: numeral_eq_Suc)

text \<open>Small integers are binary64 numbers; the quotients \<open>1 / 25\<close> and \<open>1 / 9\<close> are rounded.\<close>

lemma round64_numeral:
  "(numeral k :: int) \<le> 2 ^ 53 \<Longrightarrow> round64 (numeral k) = Finite (numeral k)"
  "(numeral k :: int) \<le> 2 ^ 53 \<Longrightarrow> round64 (- numeral k) = Finite (- numeral k)"
  "(numeral k :: int) \<le> 2 ^ 53 \<Longrightarrow> round64 (numeral k / 2) = Finite (numeral k / 2)"
  "round64 0 = Finite 0"
  "round64 1 = Finite 1"
  using round64_of_int [of "numeral k"] round64_of_int [of "- numeral k"]
    round64_half_int [of "numeral k"] round64_of_int [of 0] round64_of_int [of 1]
  by simp_all

lemmas js_eval = decimal_numeral decimal_0 decimal_1 replicate_numeral digit_char_def
  fixed_digits_def Let_def js_rem_def js_trunc_def StringToNumber_def unsigned_decimal_def
  digits_value_def digit_step_def digit_val_def is_digit_def toFixed.simps Number.simps
  round64_numeral js_sq_def js_sub_def

lemma round64_1_25: "round64 (1 / 25) = Finite (5764607523034235 / 144115188075855872)"
  by (rule round64_evalI [where e = "- 57"]) (simp_all add: round_even_def)

lemma round64_1_9: "round64 (1 / 9) = Finite (2001599834386887 / 18014398509481984)"
  by (rule round64_evalI [where e = "- 56"]) (simp_all add: round_even_def)

lemma round64_minus_1: "round64 (- 1) = Finite (- 1)"
  using round64_of_int [of "- 1"] by simp

section \<open>Construction\<close>

text \<open>The state \<open>new BoxBlurMaterial()\<close> returns.\<close>

lemma new_default:
  "new_BoxBlurMaterial no_options =
     Normal \<lparr>name = ''BoxBlurMaterial'',
       defines = [''DEPTH_PACKING'' \<mapsto> ''0'', ''DISTANCE_THRESHOLD'' \<mapsto> ''0.1'',
                  ''BILATERAL'' \<mapsto> ''1'', ''KERNEL_SIZE'' \<mapsto> ''5'',
                  ''KERNEL_SIZE_HALF'' \<mapsto> ''2'', ''KERNEL_SIZE_SQ'' \<mapsto> ''25'',
                  ''KERNEL_SIZE_SQ_HALF'' \<mapsto> ''12'', ''INV_KERNEL_SIZE_SQ'' \<mapsto> ''0.040000'',
                  ''MAX_VARYING_VECTORS'' \<mapsto> ''8''],
       uniforms = \<lparr>inputBuffer = JSNull, depthBuffer = JSNull, normalDepthBuffer = JSNull,
                  texelSize = (Finite 0, Finite 0), cameraNearFar = (0, 0),
                  scale = Finite 1\<rparr>,
       blending = NoBlending, toneMapped = False, depthWrite = False, depthTest = False,
       needsUpdate = True\<rparr>"
  by (simp add: new_BoxBlurMaterial_def no_options_def set_bilateral_def super_ShaderMaterial_def
      set_kernelSize_def set_maxVaryingVectors_def js_eval round64_1_25)

text \<open>
  C3. Constructing the material with no options gives a kernel size of 5, but the
  getter of \<open>bilateral\<close> returns \<open>true\<close>, not the documented default \<open>false\<close>: the
  constructor assigns the default \<open>false\<close>, and the setter enables the filter for every
  value that is not \<open>null\<close>.
\<close>

theorem default_construction:
  "is_Normal (new_BoxBlurMaterial no_options)
   \<and> get_kernelSize (state_of (new_BoxBlurMaterial no_options)) = Finite 5
   \<and> get_bilateral (state_of (new_BoxBlurMaterial no_options)) = True"
  by (simp add: new_default get_kernelSize_def get_bilateral_def js_eval)

section \<open>The kernel size\<close>

text \<open>The state after an odd integer is assigned.\<close>

lemma set_kernelSize_Normal:
  assumes "odd n"
  shows "set_kernelSize (of_int n) s =
     Normal (s\<lparr>defines := (defines s)
             (''KERNEL_SIZE'' \<mapsto> toFixed 0 (Finite (of_int n)),
              ''KERNEL_SIZE_HALF'' \<mapsto> toFixed 0 (Math_floor (js_div (Finite (of_int n)) (Finite 2))),
              ''KERNEL_SIZE_SQ'' \<mapsto> toFixed 0 (js_sq (Finite (of_int n))),
              ''KERNEL_SIZE_SQ_HALF'' \<mapsto>
                 toFixed 0 (Math_floor (js_div (js_sq (Finite (of_int n))) (Finite 2))),
              ''INV_KERNEL_SIZE_SQ'' \<mapsto> toFixed 6 (js_div (Finite 1) (js_sq (Finite (of_int n))))),
           needsUpdate := True\<rparr>)"
  using assms by (simp add: set_kernelSize_def js_rem_int_2)

text \<open>A square of at most \<open>2 ^ 53\<close> is computed exactly, and so is its half, rounded down.\<close>

lemma square_bound:
  fixes n :: int
  assumes "n * n \<le> 2 ^ 53"
  shows "\<bar>n\<bar> \<le> 2 ^ 53" and "\<bar>n * n\<bar> \<le> 2 ^ 53"
proof -
  have "\<bar>n\<bar> \<le> \<bar>n\<bar> * \<bar>n\<bar>"
  proof (cases "n = 0")
    case True
    then show ?thesis by simp
  next
    case False
    then have "1 \<le> \<bar>n\<bar>" by simp
    then have "\<bar>n\<bar> * 1 \<le> \<bar>n\<bar> * \<bar>n\<bar>" by (intro mult_left_mono) simp_all
    then show ?thesis by simp
  qed
  also have "\<dots> = n * n" by (simp add: abs_mult_self_eq)
  finally show "\<bar>n\<bar> \<le> 2 ^ 53" using assms by simp
  show "\<bar>n * n\<bar> \<le> 2 ^ 53" using assms by (simp add: abs_mult)
qed

lemma floor_half_bound:
  fixes k :: int
  assumes "\<bar>k\<bar> \<le> 2 ^ 53"
  shows "\<bar>\<lfloor>real_of_int k / 2\<rfloor>\<bar> \<le> 2 ^ 53"
proof -
  have "\<lfloor>real_of_int k / 2\<rfloor> = k div 2" by (simp add: floor_divide_of_int_eq [of k 2, simplified])
  with assms show ?thesis by simp
qed

lemma square_exact:
  assumes "n * n \<le> 2 ^ 53"
  shows "js_sq (Finite (of_int n)) = Finite (of_int (n * n))"
  using round64_of_int [OF square_bound(2) [OF assms]] by (simp add: js_sq_def)

text \<open>
  The inverse of the square, as it is read back: the square, the quotient and the
  number read are rounded to binary64, and the string has six decimal digits.
\<close>

lemma inverse_square_error:
  fixes n :: int
  assumes "n \<noteq> 0" and "\<bar>n\<bar> \<le> 2 ^ 53"
  shows "\<exists>r. Number (Some (toFixed 6 (js_div (Finite 1) (js_sq (Finite (of_int n)))))) = Finite r
             \<and> \<bar>r - 1 / real_of_int (n * n)\<bar> \<le> 1 / (2 * 10 ^ 6) + 1 / 2 ^ 49"
proof -
  define x where "x = real_of_int (n * n)"
  have "1 \<le> \<bar>n\<bar>" using assms(1) by simp
  then have "1 * 1 \<le> \<bar>n\<bar> * \<bar>n\<bar>" by (intro mult_mono) simp_all
  then have "1 \<le> n * n" by (simp add: abs_mult_self_eq)
  then have x1: "1 \<le> x" unfolding x_def by linarith
  have "\<bar>n\<bar> * \<bar>n\<bar> \<le> 2 ^ 53 * 2 ^ 53" using assms(2) by (intro mult_mono) simp_all
  then have "n * n \<le> 2 ^ 106" by (simp add: abs_mult_self_eq)
  then have "x \<le> 2 ^ 106" unfolding x_def
    by (metis of_int_le_iff of_int_numeral of_int_power)
  then have "\<bar>x\<bar> < 2 ^ 1024 - 2 ^ 970" and "1 / 2 ^ 1022 \<le> \<bar>x\<bar>"
    using x1 by simp_all
  then obtain S where S: "round64 x = Finite S" and "\<bar>S - x\<bar> \<le> \<bar>x\<bar> / 2 ^ 53"
    using round64_error [of x] by blast
  then have Sx: "x - x / 2 ^ 53 \<le> S" "S \<le> x + x / 2 ^ 53"
    using x1 by linarith+
  have Spos: "0 < S" using Sx(1) x1 by (simp add: algebra_simps add_divide_distrib)
  define y where "y = 1 / S"
  define x0 where "x0 = 1 / x"
  have x0: "0 < x0" "x0 \<le> 1" using x1 by (simp_all add: x0_def)
  have ypos: "0 < y" using Spos by (simp add: y_def)
  have eq: "y - x0 = (x - S) / (S * x)"
    using Spos x1 by (simp add: y_def x0_def field_simps)
  have pos: "0 \<le> S * x" using Spos x1 by simp
  have a: "x - S \<le> x / 2 ^ 53" and b: "- (x / 2 ^ 53) \<le> x - S" using Sx by simp_all
  have e1: "x / 2 ^ 53 / (S * x) = y / 2 ^ 53" using Spos x1 by (simp add: y_def)
  have e2: "- (x / 2 ^ 53) / (S * x) = - (y / 2 ^ 53)" using Spos x1 by (simp add: y_def)
  have "y - x0 \<le> x / 2 ^ 53 / (S * x)" unfolding eq by (rule divide_right_mono [OF a pos])
  then have yx1: "y - x0 \<le> y / 2 ^ 53" unfolding e1 .
  have "- (x / 2 ^ 53) / (S * x) \<le> y - x0" unfolding eq by (rule divide_right_mono [OF b pos])
  then have yx2: "- (y / 2 ^ 53) \<le> y - x0" unfolding e2 .
  note yx = yx1 yx2
  with x0 have y2: "y \<le> 2" by (simp add: algebra_simps add_divide_distrib)
  have eta: "1 / 2 ^ 1075 \<le> (1::real) / 2 ^ 60" by simp
  have "- 2 \<le> y" and "y \<le> 2" and "2 \<le> (2::real) ^ 1000" using ypos y2 by simp_all
  from this eta obtain d where d: "round64 y = Finite d"
    and dy: "y - (2 / 2 ^ 53 + 1 / 2 ^ 60) \<le> d" "d \<le> y + (2 / 2 ^ 53 + 1 / 2 ^ 60)"
    by (rule round64_between)
  have "- 3 \<le> d" and "d \<le> 3" and "3 \<le> (2::real) ^ 1000" using dy ypos y2 by simp_all
  from this eta obtain r where r: "Number (Some (toFixed 6 (Finite d))) = Finite r"
    and rd: "d - (1 / (2 * 10 ^ 6) + (3 + 1) / 2 ^ 53 + 1 / 2 ^ 60) \<le> r"
      "r \<le> d + (1 / (2 * 10 ^ 6) + (3 + 1) / 2 ^ 53 + 1 / 2 ^ 60)"
    by (rule Number_toFixed_between)
  have "r - x0 \<le> 1 / (2 * 10 ^ 6) + 1 / 2 ^ 49" and "- (r - x0) \<le> 1 / (2 * 10 ^ 6) + 1 / 2 ^ 49"
    using rd dy yx y2 by (simp_all add: algebra_simps add_divide_distrib)
  then have "\<bar>r - x0\<bar> \<le> 1 / (2 * 10 ^ 6) + 1 / 2 ^ 49" by (rule abs_leI)
  moreover have "js_div (Finite 1) (js_sq (Finite (of_int n))) = Finite d"
    using S Spos d by (simp add: js_sq_def x_def y_def)
  ultimately show ?thesis using r by (auto simp: x0_def x_def)
qed

text \<open>An odd integer that is a binary64 number has at most 53 bits.\<close>

lemma odd_binary64_bound:
  fixes n :: int
  assumes "odd n" and r: "round64 (of_int n) = Finite (of_int n)"
  shows "\<bar>n\<bar> \<le> 2 ^ 53"
proof (rule ccontr)
  assume "\<not> \<bar>n\<bar> \<le> 2 ^ 53"
  then have "2 ^ 53 < \<bar>n\<bar>" by simp
  then have "real_of_int (2 ^ 53) < real_of_int \<bar>n\<bar>" by (simp only: of_int_less_iff)
  then have big: "2 ^ 53 < \<bar>real_of_int n\<bar>" by simp
  have fin: "\<bar>real_of_int n\<bar> < 2 ^ 1024 - 2 ^ 970"
    using r by (auto simp: round64_def split: if_splits)
  define e where "e = ulp_exponent \<bar>real_of_int n\<bar>"
  define k where "k = round_even (real_of_int n / 2 powi e)"
  have "\<bar>real_of_int n\<bar> < 2 ^ 1024" using fin by simp
  from ulp_exponent_props(3) [OF this] have "\<bar>real_of_int n\<bar> < 2 ^ 53 * 2 powi e"
    by (simp add: e_def)
  with big have "(2::real) ^ 53 * 1 < 2 ^ 53 * 2 powi e" by simp
  then have "(1::real) < 2 powi e" by (simp only: mult_less_cancel_left_pos zero_less_power zero_less_numeral)
  then have "(2::real) powi 0 < 2 powi e" by simp
  then have e: "0 < e" by (rule two_powi_less_imp)
  then have p: "(2::real) powi e = 2 ^ nat e" by (simp add: power_int_def)
  from round64_Finite [OF fin] r have "real_of_int n = of_int k * 2 powi e"
    by (simp add: e_def k_def)
  then have "real_of_int n = real_of_int (k * 2 ^ nat e)" by (simp add: p)
  then have "n = k * 2 ^ nat e" by (simp only: of_int_eq_iff)
  moreover have "even ((2::int) ^ nat e)" using e by simp
  ultimately have "even n" by simp
  with assms(1) show False by simp
qed

text \<open>
  C1, as amended. For every integer \<open>n\<close> that is a binary64 number, setting the kernel
  size to \<open>n\<close> completes normally iff \<open>n\<close> is odd. Then the getter returns \<open>n\<close>, the
  half read as a number is \<open>floor(n / 2)\<close>, the inverse read as a number is within
  \<open>1 / (2 * 10 ^ 6) + 2 ^ - 49\<close> of \<open>1 / (n * n)\<close>, and \<open>needsUpdate\<close> is set. The
  square and its half read as numbers are \<open>n * n\<close> and \<open>floor(n * n / 2)\<close> when
  \<open>n * n \<le> 2 ^ 53\<close>, that is for \<open>\<bar>n\<bar> \<le> 94906265\<close>.
\<close>

theorem set_kernelSize_integer:
  "(round64 (of_int n) = Finite (of_int n) \<longrightarrow>
      is_Normal (set_kernelSize (of_int n) s) = odd n
    \<and> (odd n \<longrightarrow>
          get_kernelSize (state_of (set_kernelSize (of_int n) s)) = Finite (of_int n)
        \<and> Number (defines (state_of (set_kernelSize (of_int n) s)) ''KERNEL_SIZE_HALF'')
            = Finite (of_int \<lfloor>real_of_int n / 2\<rfloor>)
        \<and> (\<exists>r. Number (defines (state_of (set_kernelSize (of_int n) s)) ''INV_KERNEL_SIZE_SQ'')
                  = Finite r
                \<and> \<bar>r - 1 / real_of_int (n * n)\<bar> \<le> 1 / (2 * 10 ^ 6) + 1 / 2 ^ 49)
        \<and> needsUpdate (state_of (set_kernelSize (of_int n) s))))
   \<and> (odd n \<and> n * n \<le> 2 ^ 53 \<longrightarrow>
        Number (defines (state_of (set_kernelSize (of_int n) s)) ''KERNEL_SIZE_SQ'')
          = Finite (of_int (n * n))
      \<and> Number (defines (state_of (set_kernelSize (of_int n) s)) ''KERNEL_SIZE_SQ_HALF'')
          = Finite (of_int \<lfloor>real_of_int (n * n) / 2\<rfloor>))"
proof (cases "odd n")
  case True
  note st = set_kernelSize_Normal [OF True, of s]
  have A: "get_kernelSize (state_of (set_kernelSize (of_int n) s)) = Finite (of_int n)
      \<and> Number (defines (state_of (set_kernelSize (of_int n) s)) ''KERNEL_SIZE_HALF'')
          = Finite (of_int \<lfloor>real_of_int n / 2\<rfloor>)
      \<and> (\<exists>r. Number (defines (state_of (set_kernelSize (of_int n) s)) ''INV_KERNEL_SIZE_SQ'')
                = Finite r
              \<and> \<bar>r - 1 / real_of_int (n * n)\<bar> \<le> 1 / (2 * 10 ^ 6) + 1 / 2 ^ 49)
      \<and> needsUpdate (state_of (set_kernelSize (of_int n) s))"
    if rep: "round64 (of_int n) = Finite (of_int n)"
  proof -
    note b = odd_binary64_bound [OF True rep]
    from True have nz: "n \<noteq> 0" by auto
    have 1: "Number (Some (toFixed 0 (Finite (of_int n)))) = Finite (of_int n)"
      by (rule Number_toFixed_int [OF b])
    have 2: "Number (Some (toFixed 0 (Finite (of_int \<lfloor>real_of_int n / 2\<rfloor>))))
               = Finite (of_int \<lfloor>real_of_int n / 2\<rfloor>)"
      by (rule Number_toFixed_int [OF floor_half_bound [OF b]])
    show ?thesis
      using inverse_square_error [OF nz b]
      by (simp add: st get_kernelSize_def round64_half_int [OF b] 1 2 del: of_int_mult)
  qed
  have B: "Number (defines (state_of (set_kernelSize (of_int n) s)) ''KERNEL_SIZE_SQ'')
          = Finite (of_int (n * n))
      \<and> Number (defines (state_of (set_kernelSize (of_int n) s)) ''KERNEL_SIZE_SQ_HALF'')
          = Finite (of_int \<lfloor>real_of_int (n * n) / 2\<rfloor>)"
    if b: "n * n \<le> 2 ^ 53"
  proof -
    note c = square_bound [OF b]
    have 3: "Number (Some (toFixed 0 (Finite (of_int (n * n))))) = Finite (of_int (n * n))"
      by (rule Number_toFixed_int [OF c(2)])
    have 4: "Number (Some (toFixed 0 (Finite (of_int \<lfloor>real_of_int (n * n) / 2\<rfloor>))))
               = Finite (of_int \<lfloor>real_of_int (n * n) / 2\<rfloor>)"
      by (rule Number_toFixed_int [OF floor_half_bound [OF c(2)]])
    show ?thesis
      by (simp add: st square_exact [OF b] round64_half_int [OF c(2)] 3 4 del: of_int_mult)
  qed
  from True A B show ?thesis by (simp add: st)
next
  case False
  then show ?thesis
    by (simp add: set_kernelSize_def js_rem_int_2)
qed

theorem set_kernelSize_integer_witness:
  "round64 (of_int 3) = Finite (of_int 3) \<and> odd (3::int) \<and> (3::int) * 3 \<le> 2 ^ 53
   \<and> is_Normal (set_kernelSize (of_int 3) super_ShaderMaterial)
   \<and> get_kernelSize (state_of (set_kernelSize (of_int 3) super_ShaderMaterial)) = Finite (of_int 3)
   \<and> Number (defines (state_of (set_kernelSize (of_int 3) super_ShaderMaterial)) ''KERNEL_SIZE_SQ'')
       = Finite (of_int (3 * 3))"
proof -
  have "round64 (of_int 3) = Finite (of_int 3)" by (rule round64_of_int) simp
  moreover have "odd (3::int)" and "(3::int) * 3 \<le> 2 ^ 53" by simp_all
  ultimately show ?thesis
    using set_kernelSize_integer [of 3 super_ShaderMaterial] by blast
qed

text \<open>
  The square of \<open>94906267\<close>, the least odd integer above the bound, is
  \<open>9007199515875289\<close>, which has 54 bits: it is rounded to the even neighbour.
\<close>

lemma round64_square_94906267:
  "round64 (94906267 * 94906267) = Finite 9007199515875288"
  "round64 9007199515875288 = Finite 9007199515875288"
  by (rule round64_evalI [where e = 1]; simp add: round_even_def)+

text \<open>
  With the kernel size \<open>94906267\<close> the define \<open>KERNEL_SIZE_SQ\<close> is written as
  \<open>9007199515875288\<close>, which is not the square of the kernel size.
\<close>

theorem set_kernelSize_square_counterexample:
  "round64 94906267 = Finite 94906267 \<and> odd (94906267::int)
   \<and> is_Normal (set_kernelSize 94906267 super_ShaderMaterial)
   \<and> Number (defines (state_of (set_kernelSize 94906267 super_ShaderMaterial)) ''KERNEL_SIZE_SQ'')
       = Finite 9007199515875288
   \<and> (9007199515875288::real) \<noteq> 94906267 * 94906267"
proof -
  have rep: "round64 94906267 = Finite 94906267"
    using round64_of_int [of 94906267] by simp
  have sq: "js_sq (Finite 94906267) = Finite 9007199515875288"
    unfolding js_sq_def js_mul.simps by (rule round64_square_94906267(1))
  have str: "toFixed 0 (Finite 9007199515875288) = ''9007199515875288''"
    by (simp add: js_eval)
  have num: "Number (Some ''9007199515875288'') = Finite 9007199515875288"
    by (simp add: js_eval round64_square_94906267(2))
  have ok: "is_Normal (set_kernelSize 94906267 super_ShaderMaterial)"
    by (simp add: set_kernelSize_def js_rem_def js_trunc_def)
  have "defines (state_of (set_kernelSize 94906267 super_ShaderMaterial)) ''KERNEL_SIZE_SQ''
          = Some (toFixed 0 (js_sq (Finite 94906267)))"
    by (simp add: set_kernelSize_def js_rem_def js_trunc_def)
  then show ?thesis unfolding sq str by (simp add: num rep ok)
qed

text \<open>The scenario of the spec: kernel size 3 gives the constants 1, 9, 4 and 0.111111.\<close>

lemma set_kernelSize_3:
  "defines (state_of (set_kernelSize 3 s)) ''KERNEL_SIZE'' = Some ''3''
   \<and> defines (state_of (set_kernelSize 3 s)) ''KERNEL_SIZE_HALF'' = Some ''1''
   \<and> defines (state_of (set_kernelSize 3 s)) ''KERNEL_SIZE_SQ'' = Some ''9''
   \<and> defines (state_of (set_kernelSize 3 s)) ''KERNEL_SIZE_SQ_HALF'' = Some ''4''
   \<and> defines (state_of (set_kernelSize 3 s)) ''INV_KERNEL_SIZE_SQ'' = Some ''0.111111''"
  by (simp add: set_kernelSize_def js_eval round64_1_9)

text \<open>
  C4. Setting the kernel size to an even integer throws the error, and the state the
  object is left in is the state before the call: the defines (the stored kernel size
  and the derived constants among them) and \<open>needsUpdate\<close> are unchanged.
\<close>

theorem set_kernelSize_even_rejected:
  assumes "even n"
  shows "set_kernelSize (of_int n) s = Throw (Error ''The kernel size must be an odd number'') s
   \<and> state_of (set_kernelSize (of_int n) s) = s
   \<and> defines (state_of (set_kernelSize (of_int n) s)) = defines s
   \<and> get_kernelSize (state_of (set_kernelSize (of_int n) s)) = get_kernelSize s
   \<and> needsUpdate (state_of (set_kernelSize (of_int n) s)) = needsUpdate s"
  using assms by (simp add: set_kernelSize_def js_rem_int_2)

theorem set_kernelSize_even_rejected_witness:
  "even (4::int)
   \<and> set_kernelSize (of_int 4) (state_of (set_kernelSize 3 super_ShaderMaterial))
       = Throw (Error ''The kernel size must be an odd number'')
           (state_of (set_kernelSize 3 super_ShaderMaterial))
   \<and> get_kernelSize (state_of (set_kernelSize (of_int 4)
         (state_of (set_kernelSize 3 super_ShaderMaterial)))) = Finite 3"
proof -
  have e: "even (4::int)" by simp
  have k: "get_kernelSize (state_of (set_kernelSize 3 super_ShaderMaterial)) = Finite 3"
    by (simp add: get_kernelSize_def set_kernelSize_def js_eval round64_1_9)
  from set_kernelSize_even_rejected [OF e, of "state_of (set_kernelSize 3 super_ShaderMaterial)"]
  show ?thesis using e k by simp
qed

section \<open>The recompilation flag\<close>

text \<open>
  C2. \<open>setSize\<close> leaves \<open>needsUpdate\<close> as it is, and the setters of the kernel size,
  \<open>bilateral\<close>, the normal-depth buffer and the depth packing, and
  \<open>copyCameraSettings\<close> with a camera, set it. The setter of \<open>maxVaryingVectors\<close>
  does not: on a material whose flag the renderer has cleared, it rewrites the define
  \<open>MAX_VARYING_VECTORS\<close> from 8 to 16 and the flag stays \<open>false\<close>.
\<close>

theorem maxVaryingVectors_not_dirty:
  "defines ((state_of (new_BoxBlurMaterial no_options))\<lparr>needsUpdate := False\<rparr>)
      ''MAX_VARYING_VECTORS'' = Some ''8''
   \<and> defines (set_maxVaryingVectors (Finite 16)
        ((state_of (new_BoxBlurMaterial no_options))\<lparr>needsUpdate := False\<rparr>))
      ''MAX_VARYING_VECTORS'' = Some ''16''
   \<and> needsUpdate (set_maxVaryingVectors (Finite 16)
        ((state_of (new_BoxBlurMaterial no_options))\<lparr>needsUpdate := False\<rparr>)) = False"
  by (simp add: new_default set_maxVaryingVectors_def js_eval)

lemma set_maxVaryingVectors_needsUpdate:
  "needsUpdate (set_maxVaryingVectors v s) = needsUpdate s"
  by (simp add: set_maxVaryingVectors_def)

lemma setSize_needsUpdate: "needsUpdate (setSize w h s) = needsUpdate s"
  by (simp add: setSize_def)

lemma setters_needsUpdate:
  "needsUpdate (set_bilateral b s)"
  "needsUpdate (set_normalDepthBuffer h s)"
  "needsUpdate (set_depthPacking p s)"
  "needsUpdate (copyCameraSettings (Some cam) s)"
  "needsUpdate (set_worldDistanceThreshold v s)"
  "is_Normal (set_kernelSize k s) \<Longrightarrow> needsUpdate (state_of (set_kernelSize k s))"
  by (simp_all add: set_bilateral_def set_normalDepthBuffer_def set_depthPacking_def
      copyCameraSettings_def set_worldDistanceThreshold_def set_kernelSize_def Let_def
      split: if_splits)

section \<open>Bilateral filtering\<close>

text \<open>
  C9. After any value other than \<open>null\<close> is assigned to \<open>bilateral\<close>, the boolean
  \<open>false\<close> included, the getter returns \<open>true\<close>; after \<open>null\<close> it returns
  \<open>false\<close>. No other accessor or method changes what the getter returns.
\<close>

theorem set_bilateral_enables:
  "get_bilateral (set_bilateral v s) = (v \<noteq> JSNull)
   \<and> get_bilateral (set_bilateral (JSBoolean False) s) = True
   \<and> get_bilateral (set_bilateral JSNull s) = False
   \<and> get_bilateral (set_maxVaryingVectors m s) = get_bilateral s
   \<and> get_bilateral (state_of (set_kernelSize k s)) = get_bilateral s
   \<and> get_bilateral (set_scale c s) = get_bilateral s
   \<and> get_bilateral (set_inputBuffer h s) = get_bilateral s
   \<and> get_bilateral (set_depthBuffer h s) = get_bilateral s
   \<and> get_bilateral (set_normalDepthBuffer h s) = get_bilateral s
   \<and> get_bilateral (set_depthPacking p s) = get_bilateral s
   \<and> get_bilateral (set_worldDistanceThreshold d s) = get_bilateral s
   \<and> get_bilateral (copyCameraSettings cam s) = get_bilateral s
   \<and> get_bilateral (setSize w h' s) = get_bilateral s"
  by (simp add: get_bilateral_def set_bilateral_def set_maxVaryingVectors_def set_kernelSize_def
      set_scale_def set_inputBuffer_def set_depthBuffer_def set_normalDepthBuffer_def
      set_depthPacking_def set_worldDistanceThreshold_def copyCameraSettings_def setSize_def
      Let_def split: option.split)

section \<open>The world distance threshold\<close>

text \<open>The two steps of the error analysis that are not linear.\<close>

lemma scale_between:
  fixes e z k :: real
  assumes "0 \<le> e" and "e \<le> 1" and "- k \<le> z" and "z \<le> k"
  shows "- k \<le> e * z" and "e * z \<le> k"
proof -
  have "\<bar>e * z\<bar> \<le> 1 * k"
    unfolding abs_mult using assms by (intro mult_mono) (simp_all add: abs_le_iff)
  then show "- k \<le> e * z" and "e * z \<le> k" by (simp_all add: abs_le_iff)
qed

lemma product_between:
  fixes x y a b :: real
  assumes "- a \<le> x" and "x \<le> a" and "- b \<le> y" and "y \<le> b"
  shows "- (a * b) \<le> x * y" and "x * y \<le> a * b"
proof -
  have "0 \<le> a" using assms(1,2) by linarith
  have "\<bar>x * y\<bar> \<le> a * b"
    unfolding abs_mult using assms \<open>0 \<le> a\<close> by (intro mult_mono) (simp_all add: abs_le_iff)
  then show "- (a * b) \<le> x * y" and "x * y \<le> a * b" by (simp_all add: abs_le_iff)
qed

text \<open>
  The round trip through the define: two roundings encode the threshold, the string keeps
  twelve decimal digits, and four roundings read it back. \<open>M\<close> bounds the magnitudes of
  the planes.
\<close>

lemma worldDistanceThreshold_error:
  assumes lt: "get_near s < get_far s"
    and v: "get_near s \<le> v" "v \<le> get_far s"
    and M: "\<bar>get_near s\<bar> \<le> M" "\<bar>get_far s\<bar> \<le> M" "M \<le> 2 ^ 500"
    and gap: "1 / 2 ^ 500 \<le> get_far s - get_near s"
  shows "\<exists>r. get_worldDistanceThreshold (set_worldDistanceThreshold v s) = Finite r
             \<and> \<bar>r - v\<bar> \<le> (get_far s - get_near s) * (1 / (2 * 10 ^ 12) + 1 / 2 ^ 49) + M / 2 ^ 53"
proof -
  define near far where "near = get_near s" and "far = get_far s"
  define D where "D = far - near"
  define E where "E = v - near"
  define e where "e = E / D"
  have D: "0 < D" "1 / 2 ^ 500 \<le> D" "D \<le> 2 * M"
    using lt gap M by (simp_all add: D_def near_def far_def abs_le_iff)
  have E: "0 \<le> E" "E \<le> D"
    using v by (simp_all add: E_def D_def near_def far_def)
  have e: "0 \<le> e" "e \<le> 1" and eD: "e * D = E"
    using E D(1) by (simp_all add: e_def)
  have x1: "- v + near = - E" and x2: "near + - far = - D"
    by (simp_all add: D_def E_def)
  have vM: "- M \<le> v" "v \<le> M" using v M by (simp_all add: near_def far_def abs_le_iff)
  have L: "D \<le> 2 ^ 1000" "2 * D \<le> 2 ^ 1000" "M + D \<le> 2 ^ 1000"
    using M(3) D(3) by simp_all
  have eta1: "1 / 2 ^ 1075 \<le> (1::real) / 2 ^ 60" by simp
  have "1 / 2 ^ 1075 = (1 / 2 ^ 500) / (2::real) ^ 575" by simp
  also have "\<dots> \<le> D / 2 ^ 575" using D(2) by (intro divide_right_mono) simp_all
  also have "\<dots> \<le> D / 2 ^ 60" using D(1) by (intro divide_left_mono) simp_all
  finally have etaD: "1 / 2 ^ 1075 \<le> D / 2 ^ 60" .
  \<comment> \<open>the two sums\<close>
  have "- D \<le> - v + near" and "- v + near \<le> D"
    unfolding x1 using E D(1) by simp_all
  from this L(1) etaD obtain t1 where t1: "round64 (- v + near) = Finite t1"
    and "(- v + near) - (D / 2 ^ 53 + D / 2 ^ 60) \<le> t1"
    and "t1 \<le> (- v + near) + (D / 2 ^ 53 + D / 2 ^ 60)"
    by (rule round64_between)
  then have a: "- E - D * (129 / 2 ^ 60) \<le> t1" "t1 \<le> - E + D * (129 / 2 ^ 60)"
    unfolding x1 by (simp_all add: algebra_simps add_divide_distrib)
  have "- D \<le> near + - far" and "near + - far \<le> D"
    unfolding x2 using D(1) by simp_all
  from this L(1) etaD obtain t2 where t2: "round64 (near + - far) = Finite t2"
    and "(near + - far) - (D / 2 ^ 53 + D / 2 ^ 60) \<le> t2"
    and "t2 \<le> (near + - far) + (D / 2 ^ 53 + D / 2 ^ 60)"
    by (rule round64_between)
  then have b: "- (D * (129 / 2 ^ 60)) \<le> t2 + D" "t2 + D \<le> D * (129 / 2 ^ 60)"
    unfolding x2 by (simp_all add: algebra_simps add_divide_distrib)
  have t2neg: "t2 < 0" using b(2) D(1) by (simp add: algebra_simps)
  \<comment> \<open>the quotient\<close>
  have "e * t2 + E = e * (t2 + D)" unfolding eD [symmetric] by (simp add: algebra_simps)
  with scale_between [OF e b]
  have et: "- E - D * (129 / 2 ^ 60) \<le> e * t2" "e * t2 \<le> - E + D * (129 / 2 ^ 60)"
    by simp_all
  have "t1 \<le> (e - 3 / 2 ^ 53) * t2" and "(e + 3 / 2 ^ 53) * t2 \<le> t1"
    using a et b D(1) by (simp_all add: algebra_simps add_divide_distrib)
  then have q: "e - 3 / 2 ^ 53 \<le> t1 / t2" "t1 / t2 \<le> e + 3 / 2 ^ 53"
    using t2neg by (simp_all add: neg_le_divide_eq neg_divide_le_eq)
  then have "- (3 / 2) \<le> t1 / t2" and "t1 / t2 \<le> 3 / 2" and "3 / 2 \<le> (2::real) ^ 1000"
    using e by simp_all
  from this eta1 obtain th where th: "round64 (t1 / t2) = Finite th"
    and "t1 / t2 - ((3 / 2) / 2 ^ 53 + 1 / 2 ^ 60) \<le> th"
    and "th \<le> t1 / t2 + ((3 / 2) / 2 ^ 53 + 1 / 2 ^ 60)"
    by (rule round64_between)
  with q have the: "e - 5 / 2 ^ 53 \<le> th" "th \<le> e + 5 / 2 ^ 53" by simp_all
  \<comment> \<open>the define, written and read back\<close>
  from the e have "- (3 / 2) \<le> th" and "th \<le> 3 / 2" and "3 / 2 \<le> (2::real) ^ 1000"
    by simp_all
  from this eta1 obtain d where d: "Number (Some (toFixed 12 (Finite th))) = Finite d"
    and "th - (1 / (2 * 10 ^ 12) + (3 / 2 + 1) / 2 ^ 53 + 1 / 2 ^ 60) \<le> d"
    and "d \<le> th + (1 / (2 * 10 ^ 12) + (3 / 2 + 1) / 2 ^ 53 + 1 / 2 ^ 60)"
    by (rule Number_toFixed_between)
  with the have de: "- (1 / (2 * 10 ^ 12) + 8 / 2 ^ 53) \<le> d - e"
    "d - e \<le> 1 / (2 * 10 ^ 12) + 8 / 2 ^ 53"
    by simp_all
  \<comment> \<open>the product\<close>
  have "- (D * (1 + 129 / 2 ^ 60)) \<le> t2" and "t2 \<le> D * (1 + 129 / 2 ^ 60)"
    using b D(1) by (simp_all add: algebra_simps)
  from product_between [OF de this]
  have "- ((1 / (2 * 10 ^ 12) + 8 / 2 ^ 53) * (D * (1 + 129 / 2 ^ 60))) \<le> (d - e) * t2"
    and "(d - e) * t2 \<le> (1 / (2 * 10 ^ 12) + 8 / 2 ^ 53) * (D * (1 + 129 / 2 ^ 60))" .
  moreover define w where "w = (d - e) * t2"
  ultimately have w: "- (D * (1 / (2 * 10 ^ 12) + 9 / 2 ^ 53)) \<le> w"
    "w \<le> D * (1 / (2 * 10 ^ 12) + 9 / 2 ^ 53)"
    using D(1) by (simp_all add: algebra_simps add_divide_distrib)
  have dt: "d * t2 = e * t2 + w" by (simp add: w_def algebra_simps)
  have p0: "- E - D * (1 / (2 * 10 ^ 12) + 11 / 2 ^ 53) \<le> d * t2"
    "d * t2 \<le> - E + D * (1 / (2 * 10 ^ 12) + 11 / 2 ^ 53)"
    unfolding dt using et w D(1) by (simp_all add: algebra_simps add_divide_distrib)
  with E D(1) have "- (2 * D) \<le> d * t2" and "d * t2 \<le> 2 * D"
    by (simp_all add: algebra_simps add_divide_distrib)
  from this L(2) etaD obtain p where p: "round64 (d * t2) = Finite p"
    and "d * t2 - (2 * D / 2 ^ 53 + D / 2 ^ 60) \<le> p"
    and "p \<le> d * t2 + (2 * D / 2 ^ 53 + D / 2 ^ 60)"
    by (rule round64_between)
  with p0 have pe: "- (D * (1 / (2 * 10 ^ 12) + 14 / 2 ^ 53)) \<le> p + E"
    "p + E \<le> D * (1 / (2 * 10 ^ 12) + 14 / 2 ^ 53)"
    using D(1) by (simp_all add: algebra_simps add_divide_distrib)
  \<comment> \<open>the difference\<close>
  have pn: "p + - near = (p + E) - v" by (simp add: E_def)
  with pe vM D(1) have "- (M + D) \<le> p + - near" and "p + - near \<le> M + D"
    by (simp_all add: algebra_simps add_divide_distrib)
  from this L(3) etaD obtain q where qq: "round64 (p + - near) = Finite q"
    and "(p + - near) - ((M + D) / 2 ^ 53 + D / 2 ^ 60) \<le> q"
    and "q \<le> (p + - near) + ((M + D) / 2 ^ 53 + D / 2 ^ 60)"
    by (rule round64_between)
  with pe D(1) have "- q - v \<le> D * (1 / (2 * 10 ^ 12) + 1 / 2 ^ 49) + M / 2 ^ 53"
    and "- (D * (1 / (2 * 10 ^ 12) + 1 / 2 ^ 49) + M / 2 ^ 53) \<le> - q - v"
    unfolding pn by (simp_all add: algebra_simps add_divide_distrib)
  then have final: "\<bar>- q - v\<bar> \<le> D * (1 / (2 * 10 ^ 12) + 1 / 2 ^ 49) + M / 2 ^ 53"
    by (simp add: abs_le_iff)
  have "t2 \<noteq> 0" using t2neg by simp
  then have enc: "viewZToOrthographicDepth (- v) near far = Finite th"
    using t1 t2 th by (simp add: viewZToOrthographicDepth_def js_sub_def)
  have dec: "orthographicDepthToViewZ (Finite d) near far = Finite q"
    using t2 p qq by (simp add: orthographicDepthToViewZ_def js_sub_def)
  have "get_worldDistanceThreshold (set_worldDistanceThreshold v s)
          = js_neg (orthographicDepthToViewZ
              (Number (Some (toFixed 12 (viewZToOrthographicDepth (- v) near far)))) near far)"
    by (simp add: get_worldDistanceThreshold_def set_worldDistanceThreshold_def
        get_near_def get_far_def near_def far_def Let_def)
  then have "get_worldDistanceThreshold (set_worldDistanceThreshold v s) = Finite (- q)"
    unfolding enc d dec by simp
  with final show ?thesis by (auto simp: D_def near_def far_def)
qed

text \<open>
  C5, as amended. After the planes of a camera with \<open>near < far\<close>, of magnitude at most
  \<open>2 ^ 500\<close> and at least \<open>2 ^ - 500\<close> apart, are copied, setting the world distance
  threshold to \<open>v\<close> between the planes and reading it back gives a finite number within
  \<open>(far - near) * (1 / (2 * 10 ^ 12) + 2 ^ - 49) + max \<bar>near\<bar> \<bar>far\<bar> * 2 ^ - 53\<close> of
  \<open>v\<close>, which is within the relative tolerance \<open>10 ^ - 6\<close> whenever
  \<open>far - near \<le> 10 ^ 6 * \<bar>v\<bar>\<close> and \<open>max \<bar>near\<bar> \<bar>far\<bar> \<le> 2 * 10 ^ 6 * \<bar>v\<bar>\<close>.
\<close>

theorem worldDistanceThreshold_roundtrip:
  assumes "camera_near cam < camera_far cam"
    and "camera_near cam \<le> v" and "v \<le> camera_far cam"
    and "\<bar>camera_near cam\<bar> \<le> 2 ^ 500" and "\<bar>camera_far cam\<bar> \<le> 2 ^ 500"
    and "1 / 2 ^ 500 \<le> camera_far cam - camera_near cam"
  shows "\<exists>r. get_worldDistanceThreshold
               (set_worldDistanceThreshold v (copyCameraSettings (Some cam) s)) = Finite r
             \<and> \<bar>r - v\<bar> \<le> (camera_far cam - camera_near cam) * (1 / (2 * 10 ^ 12) + 1 / 2 ^ 49)
                          + max \<bar>camera_near cam\<bar> \<bar>camera_far cam\<bar> / 2 ^ 53
             \<and> (camera_far cam - camera_near cam \<le> 10 ^ 6 * \<bar>v\<bar>
                  \<and> max \<bar>camera_near cam\<bar> \<bar>camera_far cam\<bar> \<le> 2 * 10 ^ 6 * \<bar>v\<bar>
                  \<longrightarrow> \<bar>r - v\<bar> \<le> \<bar>v\<bar> / 10 ^ 6)"
proof -
  let ?s = "copyCameraSettings (Some cam) s"
  define D where "D = camera_far cam - camera_near cam"
  define M where "M = max \<bar>camera_near cam\<bar> \<bar>camera_far cam\<bar>"
  have nf: "get_near ?s = camera_near cam" "get_far ?s = camera_far cam"
    by (simp_all add: copyCameraSettings_def get_near_def get_far_def Let_def)
  have M: "\<bar>camera_near cam\<bar> \<le> M" "\<bar>camera_far cam\<bar> \<le> M" "M \<le> 2 ^ 500"
    using assms(4,5) by (simp_all add: M_def)
  obtain r where r: "get_worldDistanceThreshold (set_worldDistanceThreshold v ?s) = Finite r"
    and b: "\<bar>r - v\<bar> \<le> D * (1 / (2 * 10 ^ 12) + 1 / 2 ^ 49) + M / 2 ^ 53"
    using worldDistanceThreshold_error [of ?s v M] assms(1-3,6) M unfolding nf D_def by blast
  define A V where "A = \<bar>r - v\<bar>" and "V = \<bar>v\<bar>"
  have "0 \<le> V" by (simp add: V_def)
  then have "A \<le> V / 10 ^ 6" if "D \<le> 10 ^ 6 * V" and "M \<le> 2 * 10 ^ 6 * V"
    using b that unfolding A_def [symmetric]
    by (simp add: algebra_simps add_divide_distrib)
  with r b show ?thesis unfolding A_def V_def D_def M_def by blast
qed

theorem worldDistanceThreshold_roundtrip_witness:
  "(1::real) < 100 \<and> (1::real) \<le> 5 \<and> (5::real) \<le> 100
   \<and> \<bar>1::real\<bar> \<le> 2 ^ 500 \<and> \<bar>100::real\<bar> \<le> 2 ^ 500 \<and> 1 / 2 ^ 500 \<le> (100::real) - 1
   \<and> (100::real) - 1 \<le> 10 ^ 6 * \<bar>5\<bar> \<and> max \<bar>1::real\<bar> \<bar>100\<bar> \<le> 2 * 10 ^ 6 * \<bar>5\<bar>
   \<and> (\<exists>r. get_worldDistanceThreshold
          (set_worldDistanceThreshold 5
            (copyCameraSettings
              (Some \<lparr>camera_near = 1, camera_far = 100, instanceof_PerspectiveCamera = True\<rparr>)
              (state_of (new_BoxBlurMaterial no_options)))) = Finite r
        \<and> \<bar>r - 5\<bar> \<le> 5 / 10 ^ 6)"
  using worldDistanceThreshold_roundtrip
    [of "\<lparr>camera_near = 1, camera_far = 100, instanceof_PerspectiveCamera = True\<rparr>" 5
        "state_of (new_BoxBlurMaterial no_options)"]
  by auto

text \<open>The round trip, after the planes of a camera are copied.\<close>

lemma worldDistanceThreshold_unfold:
  "get_worldDistanceThreshold (set_worldDistanceThreshold v (copyCameraSettings (Some cam) s))
     = js_neg (orthographicDepthToViewZ
         (Number (Some (toFixed 12
            (viewZToOrthographicDepth (- v) (camera_near cam) (camera_far cam)))))
         (camera_near cam) (camera_far cam))"
  by (simp add: get_worldDistanceThreshold_def set_worldDistanceThreshold_def
      copyCameraSettings_def get_near_def get_far_def Let_def)

text \<open>The scenario of the spec: planes 1 and 100, threshold 5.\<close>

lemma worldDistanceThreshold_chain_5:
  "round64 (4 / 99) = Finite (5822835881852763 / 144115188075855872)"
  "round64 (10101010101 / 250000000000) = Finite (1455708970461735 / 36028797018963968)"
  "round64 (1455708970461735 / 36028797018963968 * (- 99))
     = Finite (- (9007199254731985 / 2251799813685248))"
  "round64 (- (9007199254731985 / 2251799813685248) + - 1)
     = Finite (- (703687441776077 / 140737488355328))"
     apply (rule round64_evalI [where e = "- 57"]; simp add: round_even_def)
    apply (rule round64_evalI [where e = "- 57"]; simp add: round_even_def)
   apply (rule round64_evalI [where e = "- 51"]; simp add: round_even_def)
  apply (rule round64_evalI [where e = "- 50"]; simp add: round_even_def)
  done

lemma worldDistanceThreshold_5:
  "get_worldDistanceThreshold
     (set_worldDistanceThreshold 5
       (copyCameraSettings
         (Some \<lparr>camera_near = 1, camera_far = 100, instanceof_PerspectiveCamera = True\<rparr>)
         (state_of (new_BoxBlurMaterial no_options))))
   = Finite (703687441776077 / 140737488355328)"
proof -
  have enc: "viewZToOrthographicDepth (- 5) 1 100 = Finite (5822835881852763 / 144115188075855872)"
    by (simp add: viewZToOrthographicDepth_def js_sub_def round64_numeral
        worldDistanceThreshold_chain_5(1))
  have str: "toFixed 12 (Finite (5822835881852763 / 144115188075855872)) = ''0.040404040404''"
    by (simp add: js_eval)
  have num: "Number (Some ''0.040404040404'') = Finite (1455708970461735 / 36028797018963968)"
    by (simp add: js_eval worldDistanceThreshold_chain_5(2))
  have sub: "js_sub (Finite 1) (Finite 100) = Finite (- 99)"
    by (simp add: js_sub_def round64_numeral)
  have dec: "orthographicDepthToViewZ (Finite (1455708970461735 / 36028797018963968)) 1 100
               = Finite (- (703687441776077 / 140737488355328))"
    unfolding orthographicDepthToViewZ_def sub
    by (simp only: js_mul.simps js_sub_def js_neg.simps js_add.simps
        worldDistanceThreshold_chain_5(3,4))
  show ?thesis
    unfolding worldDistanceThreshold_unfold
    by (simp add: enc str num dec)
qed

text \<open>The roundings of the chain for the planes 1 and 30000001 and the threshold 2.\<close>

lemma threshold_chain_cex:
  "round64 (1 / 30000000) = Finite (5037190915060955 / 151115727451828646838272)"
  "round64 (33333 / 1000000000000) = Finite (1259285135787951 / 37778931862957161709568)"
  "round64 (1259285135787951 / 37778931862957161709568 * (- 30000000))
     = Finite (- (2251777295687111 / 2251799813685248))"
  "round64 (- (2251777295687111 / 2251799813685248) + - 1)
     = Finite (- (4503577109372359 / 2251799813685248))"
     apply (rule round64_evalI [where e = "- 77"]; simp add: round_even_def)
    apply (rule round64_evalI [where e = "- 77"]; simp add: round_even_def)
   apply (rule round64_evalI [where e = "- 53"]; simp add: round_even_def)
  apply (rule round64_evalI [where e = "- 52"]; simp add: round_even_def)
  done

text \<open>
  With the planes 1 and 30000001 the threshold 2 is read back as a number just below
  1.99999: the encoded threshold, about \<open>1 / 30000000\<close>, is written with twelve decimal
  digits as \<open>0.000000033333\<close>. The relative error is \<open>5 * 10 ^ - 6\<close>.
\<close>

theorem worldDistanceThreshold_tolerance_counterexample:
  "(1::real) < 30000001 \<and> (1::real) \<le> 2 \<and> (2::real) \<le> 30000001
   \<and> get_worldDistanceThreshold
        (set_worldDistanceThreshold 2
          (copyCameraSettings
            (Some \<lparr>camera_near = 1, camera_far = 30000001, instanceof_PerspectiveCamera = True\<rparr>)
            (state_of (new_BoxBlurMaterial no_options))))
       = Finite (4503577109372359 / 2251799813685248)
   \<and> \<not> \<bar>4503577109372359 / 2251799813685248 - (2::real)\<bar> \<le> \<bar>2\<bar> / 10 ^ 6"
proof -
  have enc: "viewZToOrthographicDepth (- 2) 1 30000001
               = Finite (5037190915060955 / 151115727451828646838272)"
    by (simp add: viewZToOrthographicDepth_def js_sub_def round64_numeral round64_minus_1
        threshold_chain_cex(1))
  have str: "toFixed 12 (Finite (5037190915060955 / 151115727451828646838272))
               = ''0.000000033333''"
    by (simp add: js_eval)
  have num: "Number (Some ''0.000000033333'')
               = Finite (1259285135787951 / 37778931862957161709568)"
    by (simp add: js_eval threshold_chain_cex(2))
  have sub: "js_sub (Finite 1) (Finite 30000001) = Finite (- 30000000)"
    by (simp add: js_sub_def round64_numeral)
  have dec: "orthographicDepthToViewZ (Finite (1259285135787951 / 37778931862957161709568))
               1 30000001 = Finite (- (4503577109372359 / 2251799813685248))"
    unfolding orthographicDepthToViewZ_def sub
    by (simp only: js_mul.simps js_sub_def js_neg.simps js_add.simps threshold_chain_cex(3,4))
  show ?thesis
    unfolding worldDistanceThreshold_unfold
    by (simp add: enc str num dec)
qed

section \<open>Camera settings\<close>

text \<open>
  C6. \<open>copyCameraSettings\<close> with no camera returns the state as it is. With a camera it
  stores the camera's planes as the pair \<open>cameraNearFar\<close>, defines
  \<open>PERSPECTIVE_CAMERA\<close> iff the camera is a perspective camera and removes the define
  otherwise, and sets \<open>needsUpdate\<close>.
\<close>

theorem copyCameraSettings_effect:
  "copyCameraSettings None s = s
   \<and> cameraNearFar (uniforms (copyCameraSettings (Some cam) s)) = (camera_near cam, camera_far cam)
   \<and> get_near (copyCameraSettings (Some cam) s) = camera_near cam
   \<and> get_far (copyCameraSettings (Some cam) s) = camera_far cam
   \<and> defines (copyCameraSettings (Some cam) s) ''PERSPECTIVE_CAMERA''
       = (if instanceof_PerspectiveCamera cam then Some ''1'' else None)
   \<and> needsUpdate (copyCameraSettings (Some cam) s)"
  by (simp add: copyCameraSettings_def get_near_def get_far_def Let_def)

section \<open>Buffer bindings\<close>

text \<open>
  C7. The setter of the normal-depth buffer stores the value, defines \<open>NORMAL_DEPTH\<close>
  iff the value is not \<open>null\<close> and removes the define otherwise, sets \<open>needsUpdate\<close>,
  and leaves the depth buffer's uniform as it was.
\<close>

theorem set_normalDepthBuffer_effect:
  "normalDepthBuffer (uniforms (set_normalDepthBuffer h s)) = h
   \<and> defines (set_normalDepthBuffer h s) ''NORMAL_DEPTH''
       = (if h \<noteq> JSNull then Some ''1'' else None)
   \<and> needsUpdate (set_normalDepthBuffer h s)
   \<and> depthBuffer (uniforms (set_normalDepthBuffer h s)) = depthBuffer (uniforms s)"
  by (simp add: set_normalDepthBuffer_def Let_def)

text \<open>
  C10. For every value, \<open>null\<close> included, the setters of the input buffer and of the
  depth buffer change the uniform they name and nothing else: the flag \<open>needsUpdate\<close>,
  the defines, the other uniforms and the other fields stay as they were.
\<close>

theorem set_buffer_frame:
  "set_inputBuffer v s = s\<lparr>uniforms := (uniforms s)\<lparr>inputBuffer := v\<rparr>\<rparr>
   \<and> inputBuffer (uniforms (set_inputBuffer v s)) = v
   \<and> needsUpdate (set_inputBuffer v s) = needsUpdate s
   \<and> defines (set_inputBuffer v s) = defines s
   \<and> depthBuffer (uniforms (set_inputBuffer v s)) = depthBuffer (uniforms s)
   \<and> normalDepthBuffer (uniforms (set_inputBuffer v s)) = normalDepthBuffer (uniforms s)
   \<and> texelSize (uniforms (set_inputBuffer v s)) = texelSize (uniforms s)
   \<and> cameraNearFar (uniforms (set_inputBuffer v s)) = cameraNearFar (uniforms s)
   \<and> scale (uniforms (set_inputBuffer v s)) = scale (uniforms s)
   \<and> set_depthBuffer v s = s\<lparr>uniforms := (uniforms s)\<lparr>depthBuffer := v\<rparr>\<rparr>
   \<and> depthBuffer (uniforms (set_depthBuffer v s)) = v
   \<and> needsUpdate (set_depthBuffer v s) = needsUpdate s
   \<and> defines (set_depthBuffer v s) = defines s
   \<and> inputBuffer (uniforms (set_depthBuffer v s)) = inputBuffer (uniforms s)
   \<and> normalDepthBuffer (uniforms (set_depthBuffer v s)) = normalDepthBuffer (uniforms s)
   \<and> texelSize (uniforms (set_depthBuffer v s)) = texelSize (uniforms s)
   \<and> cameraNearFar (uniforms (set_depthBuffer v s)) = cameraNearFar (uniforms s)
   \<and> scale (uniforms (set_depthBuffer v s)) = scale (uniforms s)"
  by (simp add: set_inputBuffer_def set_depthBuffer_def)

section \<open>Resizing\<close>

text \<open>
  C8. For a positive width and height, \<open>setSize\<close> stores the texel size
  \<open>(1 / width, 1 / height)\<close>, each quotient as the language computes it (rounded to
  binary64, and within the relative error \<open>2 ^ - 53\<close> of the exact quotient for a size
  between \<open>2 ^ - 1022\<close> and \<open>2 ^ 1022\<close>), and changes no other field; \<open>needsUpdate\<close>
  stays as it was.
\<close>

theorem setSize_frame:
  assumes "0 < w" and "0 < h"
  shows "setSize w h s = s\<lparr>uniforms := (uniforms s)\<lparr>texelSize := (round64 (1 / w), round64 (1 / h))\<rparr>\<rparr>
   \<and> texelSize (uniforms (setSize w h s)) = (round64 (1 / w), round64 (1 / h))
   \<and> (1 / 2 ^ 1022 \<le> w \<and> w \<le> 2 ^ 1022
        \<longrightarrow> (\<exists>x. round64 (1 / w) = Finite x \<and> \<bar>x - 1 / w\<bar> \<le> (1 / w) / 2 ^ 53))
   \<and> (1 / 2 ^ 1022 \<le> h \<and> h \<le> 2 ^ 1022
        \<longrightarrow> (\<exists>y. round64 (1 / h) = Finite y \<and> \<bar>y - 1 / h\<bar> \<le> (1 / h) / 2 ^ 53))
   \<and> needsUpdate (setSize w h s) = needsUpdate s
   \<and> defines (setSize w h s) = defines s
   \<and> inputBuffer (uniforms (setSize w h s)) = inputBuffer (uniforms s)
   \<and> depthBuffer (uniforms (setSize w h s)) = depthBuffer (uniforms s)
   \<and> normalDepthBuffer (uniforms (setSize w h s)) = normalDepthBuffer (uniforms s)
   \<and> cameraNearFar (uniforms (setSize w h s)) = cameraNearFar (uniforms s)
   \<and> scale (uniforms (setSize w h s)) = scale (uniforms s)"
proof -
  have acc: "\<exists>x. round64 (1 / a) = Finite x \<and> \<bar>x - 1 / a\<bar> \<le> (1 / a) / 2 ^ 53"
    if "1 / 2 ^ 1022 \<le> a" and "a \<le> 2 ^ 1022" for a :: real
  proof -
    have pos: "0 < a" using that(1) by (rule less_le_trans [rotated]) simp
    have lo: "1 / 2 ^ 1022 \<le> 1 / a"
      using that(2) pos by (simp add: field_simps)
    have "1 / a \<le> 1 / (1 / 2 ^ 1022)"
      using that(1) by (intro divide_left_mono) simp_all
    then have hi: "1 / a \<le> 2 ^ 1022" by simp
    have "\<bar>1 / a\<bar> = 1 / a" using pos by simp
    moreover have "(2::real) ^ 1022 < 2 ^ 1024 - 2 ^ 970" by simp
    ultimately have "\<bar>1 / a\<bar> < 2 ^ 1024 - 2 ^ 970" and "1 / 2 ^ 1022 \<le> \<bar>1 / a\<bar>"
      using lo hi by simp_all
    with round64_error [of "1 / a"] \<open>\<bar>1 / a\<bar> = 1 / a\<close> show ?thesis by auto
  qed
  show ?thesis
    using assms acc [of w] acc [of h] by (simp add: setSize_def)
qed

theorem setSize_frame_witness:
  "(0::real) < 1920 \<and> (0::real) < 1080
   \<and> (1 / 2 ^ 1022 \<le> (1920::real) \<and> (1920::real) \<le> 2 ^ 1022)
   \<and> (1 / 2 ^ 1022 \<le> (1080::real) \<and> (1080::real) \<le> 2 ^ 1022)
   \<and> texelSize (uniforms (setSize 1920 1080 super_ShaderMaterial))
       = (round64 (1 / 1920), round64 (1 / 1080))
   \<and> (\<exists>x. round64 (1 / 1920) = Finite x \<and> \<bar>x - 1 / 1920\<bar> \<le> (1 / 1920) / 2 ^ 53)
   \<and> (\<exists>y. round64 (1 / 1080) = Finite y \<and> \<bar>y - 1 / 1080\<bar> \<le> (1 / 1080) / 2 ^ 53)
   \<and> needsUpdate (setSize 1920 1080 super_ShaderMaterial) = False
   \<and> defines (setSize 1920 1080 super_ShaderMaterial) = defines super_ShaderMaterial"
proof -
  have w: "1 / 2 ^ 1022 \<le> (1920::real)" "(1920::real) \<le> 2 ^ 1022" by simp_all
  have h: "1 / 2 ^ 1022 \<le> (1080::real)" "(1080::real) \<le> 2 ^ 1022" by simp_all
  note t = setSize_frame [of 1920 1080 super_ShaderMaterial]
  from w t have "\<exists>x. round64 (1 / 1920) = Finite x \<and> \<bar>x - 1 / 1920\<bar> \<le> (1 / 1920) / 2 ^ 53"
    by simp
  moreover from h t
  have "\<exists>y. round64 (1 / 1080) = Finite y \<and> \<bar>y - 1 / 1080\<bar> \<le> (1 / 1080) / 2 ^ 53"
    by simp
  ultimately show ?thesis
    using w h t by (simp add: super_ShaderMaterial_def)
qed

end
